(* ===== verification/Prelude.thy ===== *)
theory Prelude
  imports Main
begin

text \<open>
  Shared vocabulary of the development: the names of the model's basic types, the
  collections of evaluation equations that the component theories fill in, and generic
  lemmas on lists and maps that the scanner, the executor and the runner share.
\<close>

section \<open>Collections\<close>

named_theorems sql_eval
  "equations that evaluate the scanner, the parser and the executor on literal input"

named_theorems schema_simps
  "facts about the schema state that the executor proofs rewrite with"

section \<open>Types\<close>

type_synonym ident = string
  \<comment> \<open>an SQL identifier after case folding and truncation\<close>

type_synonym 'a setting_map = "string \<rightharpoonup> 'a"

definition opt_list :: "'a option \<Rightarrow> 'a list" where
  "opt_list x = (case x of None \<Rightarrow> [] | Some y \<Rightarrow> [y])"

lemma opt_list_simps [simp]: "opt_list None = []" "opt_list (Some y) = [y]"
  by (simp_all add: opt_list_def)

section \<open>Generic lemmas on lists\<close>

lemma length_dropWhile_le [simp]: "length (dropWhile P xs) \<le> length xs"
  by (induction xs) auto

lemma length_dropWhile_less_Suc [simp]: "length (dropWhile P xs) < Suc (length xs)"
  using length_dropWhile_le [of P xs] by linarith

lemma takeWhile_dropWhile_length:
  "length (takeWhile P xs) + length (dropWhile P xs) = length xs"
  by (metis length_append takeWhile_dropWhile_id)

lemma take_Suc_Cons_nonempty [simp]: "take (Suc n) (x # xs) \<noteq> []"
  by simp

lemma apfst_Cons_neq_Nil [simp]: "apfst (Cons x) p \<noteq> ([], r)"
  by (cases p) simp

lemma length_take_le_n: "length (take n xs) \<le> n"
  by simp

section \<open>Strictly sorted lists and their prefixes\<close>

text \<open>
  A ledger that grows at the end by the next identifier and shrinks by its newest one
  stays a prefix of a strictly increasing list of identifiers.
\<close>

lemma distinct_nth_notin_take:
  "distinct xs \<Longrightarrow> k < length xs \<Longrightarrow> xs ! k \<notin> set (take k xs)"
proof -
  assume d: "distinct xs" and k: "k < length xs"
  have "distinct (take k xs @ xs ! k # drop (Suc k) xs)"
    using d k by (metis id_take_nth_drop)
  then show ?thesis by simp
qed

lemma sorted_less_take_snoc:
  assumes s: "sorted_wrt (<) (xs :: nat list)" and i: "i \<in> set xs" and ni: "i \<notin> set (take k xs)"
    and below: "\<forall>j\<in>set xs. j < i \<longrightarrow> j \<in> set (take k xs)"
  shows "take k xs @ [i] = take (Suc k) xs"
proof -
  from i obtain p where p: "p < length xs" "xs ! p = i" by (auto simp: in_set_conv_nth)
  have d: "distinct xs" using s by (simp add: strict_sorted_iff)
  have kp: "k \<le> p"
  proof (rule ccontr)
    assume "\<not> k \<le> p"
    then have "i \<in> set (take k xs)" using p by (auto simp: in_set_conv_nth)
    with ni show False ..
  qed
  have "p = k"
  proof (rule ccontr)
    assume "p \<noteq> k"
    with kp have kp': "k < p" by simp
    with p have kl: "k < length xs" by simp
    have "xs ! k < i" using s kp' p by (metis sorted_wrt_nth_less)
    with below kl have "xs ! k \<in> set (take k xs)" by auto
    with d kl show False by (simp add: distinct_nth_notin_take)
  qed
  then show ?thesis using p by (simp add: take_Suc_conv_app_nth)
qed

lemma sorted_less_removeAll_last:
  assumes s: "sorted_wrt (<) (xs :: nat list)" and kl: "k \<le> length xs"
    and i: "i \<in> set (take k xs)" and top: "\<not> list_ex (\<lambda>j. i < j) (take k xs)"
  shows "removeAll i (take k xs) = take (k - 1) xs"
proof -
  from i obtain p where p: "p < k" "p < length xs" "xs ! p = i"
    by (auto simp: in_set_conv_nth)
  have d: "distinct xs" using s by (simp add: strict_sorted_iff)
  have k1: "k - 1 < length xs" using p kl by simp
  have "p = k - 1"
  proof (rule ccontr)
    assume "p \<noteq> k - 1"
    with p have "p < k - 1" by simp
    then have "i < xs ! (k - 1)" using s p k1 by (metis sorted_wrt_nth_less)
    moreover have "xs ! (k - 1) \<in> set (take k xs)"
    proof -
      have "k - 1 < length (take k xs)" using k1 p by simp
      then have "take k xs ! (k - 1) \<in> set (take k xs)" by (rule nth_mem)
      then show ?thesis using p by simp
    qed
    ultimately show False using top by (auto simp: list_ex_iff)
  qed
  moreover have "take (Suc (k - 1)) xs = take (k - 1) xs @ [xs ! (k - 1)]"
    using k1 by (rule take_Suc_conv_app_nth)
  ultimately have tk: "take k xs = take (k - 1) xs @ [i]"
    using p by simp
  have "i \<notin> set (take (k - 1) xs)"
    using distinct_nth_notin_take [OF d k1] p \<open>p = k - 1\<close> by simp
  then show ?thesis using tk by simp
qed
lemma sorted_less_take_below:
  assumes s: "sorted_wrt (<) (xs :: nat list)" and y: "y \<in> set (take k xs)"
    and x: "x \<in> set xs" and xy: "x < y"
  shows "x \<in> set (take k xs)"
proof -
  from y obtain q where q: "q < k" "q < length xs" "xs ! q = y" by (auto simp: in_set_conv_nth)
  from x obtain p where p: "p < length xs" "xs ! p = x" by (auto simp: in_set_conv_nth)
  have "p < q"
  proof (rule ccontr)
    assume "\<not> p < q"
    then have "q < p \<or> q = p" by auto
    then show False
    proof
      assume "q < p"
      with s p have "xs ! q < xs ! p" by (metis sorted_wrt_nth_less)
      with p q xy show False by simp
    next
      assume "q = p"
      with p q xy show False by simp
    qed
  qed
  with p q have "take k xs ! p = x" "p < length (take k xs)" by simp_all
  then show ?thesis by (metis nth_mem)
qed

lemma find_Some_mem: "find P xs = Some x \<Longrightarrow> x \<in> set xs \<and> P x"
  by (auto simp: find_Some_iff)

lemma filter_notin_take:
  assumes d: "distinct xs"
  shows "filter (\<lambda>i. i \<notin> set (take k xs)) xs = drop k xs"
proof -
  have "filter (\<lambda>i. i \<notin> set (take k xs)) (take k xs) = []" by (simp add: filter_empty_conv)
  moreover have "filter (\<lambda>i. i \<notin> set (take k xs)) (drop k xs) = drop k xs"
    using set_take_disj_set_drop_if_distinct [OF d, of k k] by (auto intro!: filter_True)
  ultimately show ?thesis by (metis append_take_drop_id filter_append self_append_conv2)
qed

lemma take_length_take [simp]: "take (length (take n xs)) xs = take n xs"
  by (cases "n \<le> length xs") (simp_all add: min_def)

lemma take_eq_bound: "ys = take (length ys) xs \<Longrightarrow> length ys \<le> length xs"
  by (metis length_take min.cobounded1)

section \<open>Generic lemmas on maps\<close>

lemma dom_restrict_minus [simp]: "dom (m |` (- {k})) = dom m - {k}"
  by (auto simp: restrict_map_def split: if_splits)

lemma restrict_minus_absent [simp]: "k \<notin> dom m \<Longrightarrow> m |` (- {k}) = m"
  by (auto simp: restrict_map_def fun_eq_iff domIff)

lemma restrict_minus_other [simp]: "j \<noteq> k \<Longrightarrow> (m |` (- {k})) j = m j"
  by (simp add: restrict_map_def)

lemma restrict_minus_self [simp]: "(m |` (- {k})) k = None"
  by (simp add: restrict_map_def)

lemma ran_restrict_subset: "ran (m |` A) \<subseteq> ran m"
  by (auto simp: ran_def restrict_map_def split: if_splits)

lemma ran_upd_subset: "ran (m(k \<mapsto> v)) \<subseteq> insert v (ran m)"
  by (auto simp: ran_def)

end
