(* ===== verification/Sql_Lexer.thy ===== *)
theory Sql_Lexer
  imports Prelude
begin

text \<open>
  The PostgreSQL scanner (\<^verbatim>\<open>src/backend/parser/scan.l\<close>) on the part of the lexical
  syntax that the migration's SQL strings and their neighbours use: white space, the two
  comment forms (\<^verbatim>\<open>--\<close> to the end of the line, nested \<^verbatim>\<open>/* */\<close>), identifiers
  (case-folded and truncated to \<open>NAMEDATALEN - 1 = 63\<close> bytes), quoted identifiers and
  standard string literals with doubled-quote escapes, integers, operators (with the
  scanner's rules for embedded comment starts and trailing \<open>+\<close>/\<open>-\<close>) and single
  characters. The scanner is pulled one token at a time, as the grammar pulls it; a lexical
  error is a token of its own, so that it is reported only where the grammar reaches it.
  Not modelled: \<open>E''\<close>, \<open>B''\<close>, \<open>X''\<close>, \<open>U&''\<close> and dollar-quoted strings,
  positional parameters, numeric literals with a fraction or exponent, and the
  concatenation of string literals separated by a newline.
\<close>

section \<open>Tokens\<close>

datatype lex_error =
    UnterminatedComment
  | UnterminatedQuotedIdent
  | ZeroLengthIdent
  | UnterminatedString

datatype token =
    TIdent ident          \<comment> \<open>identifier or keyword, folded to lower case\<close>
  | TQIdent ident         \<comment> \<open>\<^verbatim>\<open>"quoted"\<close> identifier, case kept\<close>
  | TString string        \<comment> \<open>\<^verbatim>\<open>'string'\<close> literal\<close>
  | TNumber string        \<comment> \<open>unsigned integer literal\<close>
  | TOp string            \<comment> \<open>operator that is not a single self-delimiting character\<close>
  | TSelf char            \<comment> \<open>single character: \<^verbatim>\<open>, ( ) [ ] . ; : + - * / % ^ < > =\<close> or other\<close>
  | TEnd                  \<comment> \<open>end of the query string\<close>
  | TLexErr lex_error

section \<open>Character classes\<close>

definition is_space :: "char \<Rightarrow> bool" where
  "is_space c \<longleftrightarrow> c = CHR '' '' \<or> c = CHR 0x09 \<or> c = CHR 0x0A \<or> c = CHR 0x0B
     \<or> c = CHR 0x0C \<or> c = CHR 0x0D"

definition is_newline :: "char \<Rightarrow> bool" where
  "is_newline c \<longleftrightarrow> c = CHR 0x0A \<or> c = CHR 0x0D"

definition is_ident_start :: "char \<Rightarrow> bool" where
  "is_ident_start c \<longleftrightarrow>
     (let n = (of_char c :: nat) in (65 \<le> n \<and> n \<le> 90) \<or> (97 \<le> n \<and> n \<le> 122) \<or> n = 95 \<or> 128 \<le> n)"

definition is_digit :: "char \<Rightarrow> bool" where
  "is_digit c \<longleftrightarrow> (let n = (of_char c :: nat) in 48 \<le> n \<and> n \<le> 57)"

definition is_ident_cont :: "char \<Rightarrow> bool" where
  "is_ident_cont c \<longleftrightarrow> is_ident_start c \<or> is_digit c \<or> c = CHR ''$''"

definition is_op_char :: "char \<Rightarrow> bool" where
  "is_op_char c \<longleftrightarrow> c \<in> set ''~!@#^&|`?+-*/%<>=''"

definition is_self_char :: "char \<Rightarrow> bool" where
  "is_self_char c \<longleftrightarrow> c \<in> set '',()[].;:+-*/%^<>=''"

definition downcase :: "char \<Rightarrow> char" where
  "downcase c = (let n = (of_char c :: nat) in if 65 \<le> n \<and> n \<le> 90 then char_of (n + 32) else c)"

definition truncate_ident :: "string \<Rightarrow> ident" where
  "truncate_ident s = take 63 s"

section \<open>Sub-scanners\<close>

text \<open>
  Quoted text up to the closing quote \<open>q\<close>; a doubled \<open>q\<close> stands for one. The opening
  quote has been consumed. \<open>None\<close> is an unterminated literal.
\<close>

fun scan_quoted :: "char \<Rightarrow> string \<Rightarrow> (string \<times> string) option" where
  "scan_quoted q [] = None"
| "scan_quoted q [c] = (if c = q then Some ([], []) else None)"
| "scan_quoted q (c # d # cs) =
     (if c = q then
        (if d = q then map_option (apfst (Cons q)) (scan_quoted q cs) else Some ([], d # cs))
      else map_option (apfst (Cons c)) (scan_quoted q (d # cs)))"

text \<open>
  The printer that \<open>scan_quoted\<close> inverts: every \<open>q\<close> of the text doubled, as
  \<^verbatim>\<open>quote_ident\<close> and \<^verbatim>\<open>quote_literal\<close> write it (without the enclosing quotes).
\<close>

definition quote_body :: "char \<Rightarrow> string \<Rightarrow> string" where
  "quote_body q w = concat (map (\<lambda>c. if c = q then [q, q] else [c]) w)"

text \<open>
  Body of a block comment, at nesting depth \<open>d\<close> (the opening \<^verbatim>\<open>/*\<close> consumed): the input
  after the matching \<^verbatim>\<open>*/\<close>, or \<open>None\<close> if the comment is not closed.
\<close>

fun skip_comment :: "nat \<Rightarrow> string \<Rightarrow> string option" where
  "skip_comment d [] = None"
| "skip_comment d [c] = None"
| "skip_comment d (c # e # cs) =
     (if c = CHR ''/'' \<and> e = CHR ''*'' then skip_comment (Suc d) cs
      else if c = CHR ''*'' \<and> e = CHR ''/'' then (if d = 0 then Some cs else skip_comment (d - 1) cs)
      else skip_comment d (e # cs))"

text \<open>An operator ends before an embedded comment start.\<close>

fun op_cut :: "string \<Rightarrow> string" where
  "op_cut [] = []"
| "op_cut [c] = [c]"
| "op_cut (c # e # cs) =
     (if (c = CHR ''/'' \<and> e = CHR ''*'') \<or> (c = CHR ''-'' \<and> e = CHR ''-'') then []
      else c # op_cut (e # cs))"

definition is_pm :: "char \<Rightarrow> bool" where
  "is_pm c \<longleftrightarrow> c = CHR ''+'' \<or> c = CHR ''-''"

text \<open>
  A multi-character operator ending in \<open>+\<close> or \<open>-\<close> loses its trailing \<open>+\<close>/\<open>-\<close>
  characters (keeping at least one character) unless it contains one of
  \<^verbatim>\<open>~ ! @ # ^ & | ` ? %\<close>.
\<close>

definition op_strip :: "string \<Rightarrow> string" where
  "op_strip w =
     (if 1 < length w \<and> is_pm (last w) \<and> \<not> (\<exists>c\<in>set w. c \<in> set ''~!@#^&|`?%'')
      then take (max 1 (length w - length (takeWhile is_pm (rev w)))) w
      else w)"

definition op_token :: "string \<Rightarrow> token \<times> string" where
  "op_token s =
     (let w = op_strip (op_cut (takeWhile is_op_char s))
      in (if length w = 1 \<and> is_self_char (hd w) then TSelf (hd w) else TOp w, drop (length w) s))"

section \<open>The scanner\<close>

lemma skip_comment_length: "skip_comment d s = Some r \<Longrightarrow> length r < length s"
  by (induction d s rule: skip_comment.induct) (fastforce split: if_splits)+

function next_token :: "string \<Rightarrow> token \<times> string" where
  "next_token [] = (TEnd, [])"
| "next_token (c # cs) =
     (if is_space c then next_token cs
      else if c = CHR ''-'' \<and> take 1 cs = ''-'' then next_token (dropWhile (\<lambda>x. \<not> is_newline x) cs)
      else if c = CHR ''/'' \<and> take 1 cs = ''*'' then
        (case skip_comment 0 (drop 1 cs) of
           None \<Rightarrow> (TLexErr UnterminatedComment, [])
         | Some r \<Rightarrow> next_token r)
      else if is_ident_start c then
        (TIdent (truncate_ident (map downcase (c # takeWhile is_ident_cont cs))),
         dropWhile is_ident_cont cs)
      else if is_digit c then (TNumber (c # takeWhile is_digit cs), dropWhile is_digit cs)
      else if c = CHR 0x22 then
        (case scan_quoted c cs of
           None \<Rightarrow> (TLexErr UnterminatedQuotedIdent, [])
         | Some (w, r) \<Rightarrow> (if w = [] then (TLexErr ZeroLengthIdent, []) else (TQIdent (truncate_ident w), r)))
      else if c = CHR 0x27 then
        (case scan_quoted c cs of
           None \<Rightarrow> (TLexErr UnterminatedString, [])
         | Some (w, r) \<Rightarrow> (TString w, r))
      else if is_op_char c then op_token (c # cs)
      else (TSelf c, cs))"
  by pat_completeness auto
termination
proof (relation "measure length")
  fix c cs r
  assume "skip_comment 0 (drop 1 cs) = Some r"
  then have "length r < length (drop 1 cs)" by (rule skip_comment_length)
  then show "(r, c # cs) \<in> measure length" by simp
qed auto

section \<open>Consumption and bounds\<close>

lemma take1_takeWhile: "take (Suc 0) (takeWhile P xs) = [a] \<Longrightarrow> take (Suc 0) xs = [a]"
  by (cases xs) (auto split: if_splits)

lemma op_cut_nonempty:
  "\<not> (c = CHR ''/'' \<and> take 1 cs = ''*'') \<Longrightarrow> \<not> (c = CHR ''-'' \<and> take 1 cs = ''-'') \<Longrightarrow>
   op_cut (c # cs) \<noteq> []"
  by (cases cs) auto

lemma op_strip_nonempty: "w \<noteq> [] \<Longrightarrow> op_strip w \<noteq> []"
  by (auto simp: op_strip_def)

lemma op_token_consumes:
  assumes "is_op_char c"
    and "\<not> (c = CHR ''/'' \<and> take 1 cs = ''*'')" and "\<not> (c = CHR ''-'' \<and> take 1 cs = ''-'')"
    and "op_token (c # cs) = (t, r)"
  shows "length r < length (c # cs)"
proof -
  have tw: "takeWhile is_op_char (c # cs) = c # takeWhile is_op_char cs"
    using assms(1) by simp
  have "op_cut (c # takeWhile is_op_char cs) \<noteq> []"
    using assms(2,3) by (intro op_cut_nonempty) (auto dest!: take1_takeWhile)
  then have "op_strip (op_cut (takeWhile is_op_char (c # cs))) \<noteq> []"
    unfolding tw by (rule op_strip_nonempty)
  with assms(4) show ?thesis
    by (auto simp: op_token_def Let_def split: if_splits)
qed

lemma scan_quoted_length: "scan_quoted q s = Some (w, r) \<Longrightarrow> length r < length s"
  by (induction q s arbitrary: w rule: scan_quoted.induct) (auto split: if_splits)

text \<open>Every token but the end of input consumes at least one character.\<close>

lemma next_token_consumes: "next_token s = (t, r) \<Longrightarrow> t \<noteq> TEnd \<Longrightarrow> length r < length s"
proof (induction s arbitrary: t r rule: next_token.induct)
  case 1
  then show ?case by simp
next
  case (2 c cs)
  show ?case
  proof (cases "is_space c \<or> (c = CHR ''-'' \<and> take 1 cs = ''-'') \<or> (c = CHR ''/'' \<and> take 1 cs = ''*'')")
    case True
    then show ?thesis
    proof (elim disjE)
      assume "is_space c"
      with "2.IH"(1) "2.prems" show ?thesis by fastforce
    next
      assume h: "c = CHR ''-'' \<and> take 1 cs = ''-''"
      with "2.IH"(2) "2.prems" have "length r < length (dropWhile (\<lambda>x. \<not> is_newline x) cs)"
        by (auto simp: is_space_def)
      then show ?thesis
        using length_dropWhile_le [of "\<lambda>x. \<not> is_newline x" cs] by (simp del: length_dropWhile_le)
    next
      assume h: "c = CHR ''/'' \<and> take 1 cs = ''*''"
      show ?thesis
      proof (cases "skip_comment 0 (drop 1 cs)")
        case None
        with h "2.prems" show ?thesis by (auto simp: is_space_def)
      next
        case (Some q)
        with h "2.IH"(3) "2.prems" have "length r < length q"
          by (auto simp: is_space_def)
        moreover from Some have "length q < length (drop 1 cs)" by (rule skip_comment_length)
        ultimately show ?thesis by simp
      qed
    qed
  next
    case False
    with "2.prems" op_token_consumes [of c cs t r] show ?thesis
      by (auto simp: Let_def dest!: scan_quoted_length
          split: if_splits option.splits prod.splits)
  qed
qed

lemma next_token_Nil_End: "next_token [] = (TEnd, [])"
  by simp

text \<open>
  Every identifier token the scanner produces, quoted or not, is non-empty and at most
  \<open>NAMEDATALEN - 1 = 63\<close> characters long.
\<close>

lemma next_token_ident_bound:
  "next_token s = (t, r) \<Longrightarrow> t = TIdent w \<or> t = TQIdent w \<Longrightarrow> w \<noteq> [] \<and> length w \<le> 63"
proof (induction s arbitrary: t r rule: next_token.induct)
  case 1
  then show ?case by simp
next
  case (2 c cs)
  then show ?case
    by (auto simp: truncate_ident_def op_token_def Let_def split: if_splits option.splits prod.splits)
qed

lemmas lexer_eval [sql_eval] =
  is_space_def is_newline_def is_ident_start_def is_digit_def is_ident_cont_def is_op_char_def
  is_self_char_def downcase_def truncate_ident_def is_pm_def op_strip_def op_token_def

section \<open>Quoted text round trip\<close>

lemma quote_body_simps [simp]:
  "quote_body q [] = []"
  "quote_body q (c # w) = (if c = q then [q, q] else [c]) @ quote_body q w"
  by (simp_all add: quote_body_def)

lemma scan_quoted_Cons_other:
  "c \<noteq> q \<Longrightarrow> s \<noteq> [] \<Longrightarrow> scan_quoted q (c # s) = map_option (apfst (Cons c)) (scan_quoted q s)"
  by (cases s) auto

lemma scan_quoted_quote_body:
  "take 1 r \<noteq> [q] \<Longrightarrow> scan_quoted q (quote_body q w @ q # r) = Some (w, r)"
proof (induction w)
  case Nil
  then show ?case by (cases r) auto
next
  case (Cons c w)
  then show ?case by (auto simp: scan_quoted_Cons_other)
qed

lemma scan_quoted_Some_quote_body:
  "scan_quoted q s = Some (w, r) \<Longrightarrow> s = quote_body q w @ q # r \<and> take 1 r \<noteq> [q]"
  by (induction q s arbitrary: w rule: scan_quoted.induct) (auto split: if_splits)

text \<open>
  Round trip: the quoted-text scanner and the doubling printer are inverse: the
  scanner accepts exactly the printed text followed by its closing quote and a rest that
  does not start with the quote, and returns the text and that rest.
\<close>

lemma scan_quoted_roundtrip:
  "scan_quoted q s = Some (w, r) \<longleftrightarrow> s = quote_body q w @ q # r \<and> take 1 r \<noteq> [q]"
  using scan_quoted_Some_quote_body scan_quoted_quote_body by blast

text \<open>
  A quoted identifier of at most 63 characters, printed with its quotes
  doubled, is read back as itself with its case kept; the rest of the input is untouched.
\<close>

lemma next_token_quoted_ident:
  assumes "w \<noteq> []" and "length w \<le> 63" and "take 1 r \<noteq> [CHR 0x22]"
  shows "next_token (CHR 0x22 # quote_body (CHR 0x22) w @ CHR 0x22 # r) = (TQIdent w, r)"
  using assms by (simp add: scan_quoted_quote_body lexer_eval)

end
