(* ===== verification/Sql_Parser.thy ===== *)
theory Sql_Parser
  imports Sql_Lexer
begin

text \<open>
  The PostgreSQL grammar (\<^verbatim>\<open>src/backend/parser/gram.y\<close>) on the statements the
  migration sends: \<^verbatim>\<open>SET [SESSION|LOCAL] name {TO|=} value\<close>,
  \<^verbatim>\<open>DROP INDEX [IF EXISTS] name [, ...]\<close> and
  \<^verbatim>\<open>CREATE [UNIQUE] INDEX [IF NOT EXISTS] name ON table (column [, ...])
  [WHERE column IS [NOT] NULL]\<close>, and the simple-query rule that splits the query string at
  semicolons and parses every statement before any is executed
  (\<^verbatim>\<open>exec_simple_query\<close> calls \<^verbatim>\<open>pg_parse_query\<close> on the whole string).
  Two errors distinguish what the model knows: \<open>SyntaxError t\<close> where PostgreSQL's
  grammar rejects the token \<open>t\<close> too (no statement starts with an operator, \<^verbatim>\<open>DROP\<close>
  must be followed by an object kind, a reserved word is no name), and
  \<open>Unsupported t\<close> where the statement leaves the modelled subset at \<open>t\<close> and PostgreSQL
  may accept it. The errors of execution are in the same type, as the client sees them.
\<close>

section \<open>Statements and errors\<close>

datatype set_scope = SessionScope | LocalScope

datatype predicate = IsNull ident | IsNotNull ident

datatype stmt =
    SetVar set_scope ident string
  | DropIndex bool "ident list"
      \<comment> \<open>\<open>IF EXISTS\<close>, the indexes\<close>
  | CreateIndex bool bool ident ident "ident list" "predicate option"
      \<comment> \<open>\<open>UNIQUE\<close>, \<open>IF NOT EXISTS\<close>, index, table, columns, \<open>WHERE\<close> predicate\<close>

datatype sql_error =
    SyntaxError token
  | Unsupported token
  | LexError lex_error
  | UndefinedObject ident          \<comment> \<open>42704: index does not exist\<close>
  | WrongObjectType ident          \<comment> \<open>42809: relation is not an index\<close>
  | DuplicateRelation ident        \<comment> \<open>42P07: relation already exists\<close>
  | UndefinedTable ident           \<comment> \<open>42P01\<close>
  | UndefinedColumn ident          \<comment> \<open>42703\<close>
  | UnrecognizedParameter ident    \<comment> \<open>42704: unrecognized configuration parameter\<close>

section \<open>Keywords and token helpers\<close>

text \<open>The keywords of \<^verbatim>\<open>kwlist.h\<close> that cannot be a column or index name (\<^verbatim>\<open>ColId\<close>).\<close>

definition reserved_keywords :: "string list" where
  "reserved_keywords =
     [''all'', ''analyse'', ''analyze'', ''and'', ''any'', ''array'', ''as'', ''asc'', ''asymmetric'',
      ''both'', ''case'', ''cast'', ''check'', ''collate'', ''column'', ''constraint'', ''create'',
      ''current_catalog'', ''current_date'', ''current_role'', ''current_time'',
      ''current_timestamp'', ''current_user'', ''default'', ''deferrable'', ''desc'', ''distinct'',
      ''do'', ''else'', ''end'', ''except'', ''false'', ''fetch'', ''for'', ''foreign'', ''from'',
      ''grant'', ''group'', ''having'', ''in'', ''initially'', ''intersect'', ''into'', ''lateral'',
      ''leading'', ''limit'', ''localtime'', ''localtimestamp'', ''not'', ''null'', ''offset'', ''on'',
      ''only'', ''or'', ''order'', ''placing'', ''primary'', ''references'', ''returning'', ''select'',
      ''session_user'', ''some'', ''symmetric'', ''system_user'', ''table'', ''then'', ''to'',
      ''trailing'', ''true'', ''union'', ''unique'', ''user'', ''using'', ''variadic'', ''when'',
      ''where'', ''window'', ''with'']"

definition type_func_keywords :: "string list" where
  "type_func_keywords =
     [''authorization'', ''binary'', ''collation'', ''concurrently'', ''cross'', ''current_schema'',
      ''freeze'', ''full'', ''ilike'', ''inner'', ''is'', ''isnull'', ''join'', ''left'', ''like'',
      ''natural'', ''notnull'', ''outer'', ''overlaps'', ''right'', ''similar'', ''tablesample'',
      ''verbose'']"

text \<open>Object kinds that may follow \<^verbatim>\<open>DROP\<close> besides \<^verbatim>\<open>INDEX\<close>.\<close>

definition drop_object_kws :: "string list" where
  "drop_object_kws =
     [''table'', ''sequence'', ''view'', ''materialized'', ''foreign'', ''type'', ''domain'',
      ''collation'', ''conversion'', ''schema'', ''extension'', ''function'', ''procedure'',
      ''routine'', ''aggregate'', ''operator'', ''trigger'', ''rule'', ''policy'', ''publication'',
      ''subscription'', ''server'', ''role'', ''user'', ''group'', ''database'', ''tablespace'',
      ''owned'', ''cast'', ''language'', ''procedural'', ''trusted'', ''text'', ''statistics'',
      ''event'', ''access'', ''transform'', ''default'', ''unlogged'']"

definition err_at :: "token \<Rightarrow> sql_error" where
  "err_at t = (case t of TLexErr e \<Rightarrow> LexError e | _ \<Rightarrow> SyntaxError t)"

definition is_terminator :: "token \<Rightarrow> bool" where
  "is_terminator t \<longleftrightarrow> t = TSelf CHR '';'' \<or> t = TEnd"

definition hd_tok :: "token list \<Rightarrow> token" where
  "hd_tok ts = (case ts of [] \<Rightarrow> TEnd | t # _ \<Rightarrow> t)"

fun col_id :: "token \<Rightarrow> ident option" where
  "col_id (TIdent s) =
     (if s \<in> set reserved_keywords \<or> s \<in> set type_func_keywords then None else Some s)"
| "col_id (TQIdent s) = Some s"
| "col_id _ = None"

text \<open>
  The end of a statement: a terminator gives the result; a token in \<open>more\<close> continues a
  statement form that is not modelled; any other token is a syntax error.
\<close>

definition end_stmt :: "(token \<Rightarrow> bool) \<Rightarrow> token list \<Rightarrow> 'a \<Rightarrow> sql_error + 'a" where
  "end_stmt more ts x =
     (let t = hd_tok ts in
      if is_terminator t then Inr x else if more t then Inl (Unsupported t) else Inl (err_at t))"

definition is_lex_err :: "token \<Rightarrow> bool" where
  "is_lex_err t = (case t of TLexErr _ \<Rightarrow> True | _ \<Rightarrow> False)"

section \<open>SET\<close>

definition set_value :: "token \<Rightarrow> string option" where
  "set_value t =
     (case t of
        TIdent s \<Rightarrow> (if s \<notin> set reserved_keywords \<or> s \<in> {''on'', ''true'', ''false''} then Some s else None)
      | TQIdent s \<Rightarrow> Some s
      | TString s \<Rightarrow> Some s
      | TNumber s \<Rightarrow> Some s
      | _ \<Rightarrow> None)"

definition parse_set_value :: "set_scope \<Rightarrow> ident \<Rightarrow> token list \<Rightarrow> sql_error + stmt" where
  "parse_set_value sc n ts =
     (let v = hd_tok ts in
      case set_value v of
        Some x \<Rightarrow> end_stmt (\<lambda>u. u = TSelf CHR '','') (tl ts) (SetVar sc n x)
      | None \<Rightarrow>
          (if v = TIdent ''default'' \<or> v = TSelf CHR ''-'' \<or> v = TSelf CHR ''+''
           then Inl (Unsupported v) else Inl (err_at v)))"

definition parse_set :: "token list \<Rightarrow> sql_error + stmt" where
  "parse_set ts =
     (let (sc, ts1) =
        (if hd_tok ts = TIdent ''session'' then (SessionScope, tl ts)
         else if hd_tok ts = TIdent ''local'' then (LocalScope, tl ts)
         else (SessionScope, ts));
          t = hd_tok ts1
      in case col_id t of
           None \<Rightarrow> (case t of TIdent _ \<Rightarrow> Inl (Unsupported t) | _ \<Rightarrow> Inl (err_at t))
         | Some n \<Rightarrow>
             (let u = hd_tok (tl ts1) in
              if u = TIdent ''to'' \<or> u = TSelf CHR ''='' then parse_set_value sc n (tl (tl ts1))
              else (case u of
                      TIdent _ \<Rightarrow> Inl (Unsupported u)
                    | TString _ \<Rightarrow> Inl (Unsupported u)
                    | TSelf c \<Rightarrow> (if c = CHR ''.'' then Inl (Unsupported u) else Inl (err_at u))
                    | _ \<Rightarrow> Inl (err_at u))))"

section \<open>DROP INDEX\<close>

fun parse_name_list :: "token list \<Rightarrow> sql_error + ident list" where
  "parse_name_list [] = Inl (SyntaxError TEnd)"
| "parse_name_list (t # ts) =
     (case col_id t of
        None \<Rightarrow> Inl (err_at t)
      | Some n \<Rightarrow>
          (case ts of
             u # us \<Rightarrow>
               (if u = TSelf CHR '','' then map_sum id (Cons n) (parse_name_list us)
                else end_stmt (\<lambda>u. u = TSelf CHR ''.'' \<or> u = TIdent ''cascade'' \<or> u = TIdent ''restrict'')
                       ts [n])
           | [] \<Rightarrow> Inr [n]))"

definition parse_drop :: "token list \<Rightarrow> sql_error + stmt" where
  "parse_drop ts =
     (let t = hd_tok ts in
      if t = TIdent ''index'' then
        (if take 2 (tl ts) = [TIdent ''if'', TIdent ''exists'']
         then map_sum id (DropIndex True) (parse_name_list (drop 3 ts))
         else if hd_tok (tl ts) = TIdent ''concurrently'' then Inl (Unsupported (hd_tok (tl ts)))
         else map_sum id (DropIndex False) (parse_name_list (tl ts)))
      else if (\<exists>k\<in>set drop_object_kws. t = TIdent k) then Inl (Unsupported t)
      else Inl (err_at t))"

section \<open>CREATE INDEX\<close>

fun parse_cols :: "token list \<Rightarrow> sql_error + (ident list \<times> token list)" where
  "parse_cols [] = Inl (SyntaxError TEnd)"
| "parse_cols (t # ts) =
     (case col_id t of
        None \<Rightarrow> (if t = TSelf CHR ''('' then Inl (Unsupported t) else Inl (err_at t))
      | Some c \<Rightarrow>
          (case ts of
             u # us \<Rightarrow>
               (if u = TSelf CHR '','' then map_sum id (apfst (Cons c)) (parse_cols us)
                else if u = TSelf CHR '')'' then Inr ([c], us)
                else if is_terminator u \<or> is_lex_err u then Inl (err_at u)
                else Inl (Unsupported u))
           | [] \<Rightarrow> Inl (SyntaxError TEnd)))"

text \<open>The optional partial-index predicate and the end of the statement.\<close>

definition parse_where :: "token list \<Rightarrow> sql_error + predicate option" where
  "parse_where ts =
     (let t = hd_tok ts; more = (\<lambda>u. \<not> is_lex_err u) in
      if is_terminator t then Inr None
      else if t = TIdent ''where'' then
        (let c = hd_tok (tl ts); ts2 = tl (tl ts) in
         case col_id c of
           None \<Rightarrow> (if is_terminator c \<or> is_lex_err c then Inl (err_at c) else Inl (Unsupported c))
         | Some col \<Rightarrow>
             (if hd_tok ts2 = TIdent ''is'' then
                (let ts3 = tl ts2 in
                 if hd_tok ts3 = TIdent ''null'' then end_stmt more (tl ts3) (Some (IsNull col))
                 else if take 2 ts3 = [TIdent ''not'', TIdent ''null'']
                 then end_stmt more (drop 2 ts3) (Some (IsNotNull col))
                 else
                   (let u = (if hd_tok ts3 = TIdent ''not'' then hd_tok (tl ts3) else hd_tok ts3) in
                    if is_terminator u \<or> is_lex_err u then Inl (err_at u) else Inl (Unsupported u)))
              else if is_lex_err (hd_tok ts2) then Inl (err_at (hd_tok ts2))
              else Inl (Unsupported (hd_tok ts2))))
      else if t = TIdent ''include'' \<or> t = TIdent ''with'' \<or> t = TIdent ''tablespace''
              \<or> t = TIdent ''nulls''
      then Inl (Unsupported t)
      else Inl (err_at t))"

definition parse_index_on :: "bool \<Rightarrow> bool \<Rightarrow> ident \<Rightarrow> token list \<Rightarrow> sql_error + stmt" where
  "parse_index_on uniq ine n ts =
     (let t = hd_tok ts in
      if t = TIdent ''only'' then Inl (Unsupported t)
      else case col_id t of
        None \<Rightarrow> Inl (err_at t)
      | Some tbl \<Rightarrow>
          (let u = hd_tok (tl ts) in
           if u = TSelf CHR ''('' then
             (case parse_cols (tl (tl ts)) of
                Inl e \<Rightarrow> Inl e
              | Inr (cols, rest) \<Rightarrow> map_sum id (CreateIndex uniq ine n tbl cols) (parse_where rest))
           else if u = TIdent ''using'' \<or> u = TSelf CHR ''.'' then Inl (Unsupported u)
           else Inl (err_at u)))"

definition parse_create :: "token list \<Rightarrow> sql_error + stmt" where
  "parse_create ts =
     (let (uniq, ts1) = (if hd_tok ts = TIdent ''unique'' then (True, tl ts) else (False, ts)) in
      if hd_tok ts1 \<noteq> TIdent ''index'' then
        (if is_terminator (hd_tok ts1) \<or> is_lex_err (hd_tok ts1) then Inl (err_at (hd_tok ts1))
         else Inl (Unsupported (hd_tok ts1)))
      else
        (let ts2 = tl ts1;
             (ine, ts3) =
               (if take 3 ts2 = [TIdent ''if'', TIdent ''not'', TIdent ''exists''] then (True, drop 3 ts2)
                else (False, ts2));
             t = hd_tok ts3
         in if t = TIdent ''concurrently'' \<or> t = TIdent ''on'' then Inl (Unsupported t)
            else case col_id t of
              None \<Rightarrow> Inl (err_at t)
            | Some n \<Rightarrow>
                (if hd_tok (tl ts3) = TIdent ''on'' then parse_index_on uniq ine n (tl (tl ts3))
                 else Inl (err_at (hd_tok (tl ts3))))))"

section \<open>Statements and the query string\<close>

definition parse_stmt :: "token list \<Rightarrow> sql_error + stmt option" where
  "parse_stmt ts =
     (let t = hd_tok ts; rest = tl ts in
      if is_terminator t then Inr None
      else if t = TIdent ''set'' then map_sum id Some (parse_set rest)
      else if t = TIdent ''drop'' then map_sum id Some (parse_drop rest)
      else if t = TIdent ''create'' then map_sum id Some (parse_create rest)
      else (case t of
              TIdent _ \<Rightarrow> Inl (Unsupported t)
            | TSelf c \<Rightarrow> (if c = CHR ''('' then Inl (Unsupported t) else Inl (err_at t))
            | _ \<Rightarrow> Inl (err_at t)))"

text \<open>
  The tokens of one statement, up to and including the semicolon, the end of the string
  or the first lexical error; the scanner is not run past that point.
\<close>

function scan_stmt :: "string \<Rightarrow> token list \<times> string" where
  "scan_stmt s =
     (case next_token s of
        (t, r) \<Rightarrow>
          (if t = TEnd \<or> t = TSelf CHR '';'' \<or> is_lex_err t then ([t], r)
           else apfst (Cons t) (scan_stmt r)))"
  by pat_completeness auto
termination
  by (relation "measure length") (auto dest: next_token_consumes [OF sym])

declare scan_stmt.simps [simp del]

lemma scan_stmt_next:
  "next_token s = (t, q) \<Longrightarrow>
   scan_stmt s = (if t = TEnd \<or> t = TSelf CHR '';'' \<or> is_lex_err t then ([t], q)
                  else apfst (Cons t) (scan_stmt q))"
  by (subst scan_stmt.simps) simp

lemma scan_stmt_nonempty: "scan_stmt s = (ts, r) \<Longrightarrow> ts \<noteq> []"
  by (cases "next_token s") (auto simp: scan_stmt_next split: if_splits prod.splits)

lemma scan_stmt_consumes:
  "scan_stmt s = (ts, r) \<Longrightarrow> last ts \<noteq> TEnd \<Longrightarrow> length r < length s"
proof (induction s arbitrary: ts r rule: scan_stmt.induct)
  case (1 s)
  obtain t q where nt: "next_token s = (t, q)" by fastforce
  show ?case
  proof (cases "t = TEnd \<or> t = TSelf CHR '';'' \<or> is_lex_err t")
    case True
    with "1.prems" nt have "t \<noteq> TEnd" and "r = q" by (auto simp: scan_stmt_next)
    with nt show ?thesis by (auto dest: next_token_consumes)
  next
    case False
    then obtain ts' where sc: "scan_stmt q = (ts', r)" and ts: "ts = t # ts'"
      using "1.prems"(1) nt by (cases "scan_stmt q") (auto simp: scan_stmt_next)
    from sc have "ts' \<noteq> []" by (rule scan_stmt_nonempty)
    with ts "1.prems"(2) have "last ts' \<noteq> TEnd" by simp
    with "1.IH" [OF nt [symmetric] False sc] have "length r < length q" .
    moreover from nt False have "length q < length s" by (auto dest: next_token_consumes)
    ultimately show ?thesis by simp
  qed
qed

function parse_query :: "string \<Rightarrow> sql_error + stmt list" where
  "parse_query s =
     (case scan_stmt s of
        (ts, r) \<Rightarrow>
          (case parse_stmt ts of
             Inl e \<Rightarrow> Inl e
           | Inr st \<Rightarrow>
               (if last ts = TEnd then Inr (opt_list st)
                else map_sum id (\<lambda>ss. opt_list st @ ss) (parse_query r))))"
  by pat_completeness auto
termination
  by (relation "measure length") (auto dest: scan_stmt_consumes [OF sym])

declare parse_query.simps [simp del]

end
