(* ===== verification/Sql_Exec.thy ===== *)
theory Sql_Exec
  imports Sql_Parser
begin

text \<open>
  What PostgreSQL does with the parsed statements, on the part of the catalog they touch:
  the tables with their columns, the indexes (one namespace with the tables, as in
  \<^verbatim>\<open>pg_class\<close>), and the session's configuration parameters. The checks and their order
  follow \<^verbatim>\<open>RemoveRelations\<close> (all names are looked up before anything is dropped; a
  missing index is an error unless \<^verbatim>\<open>IF EXISTS\<close>, a table named in \<^verbatim>\<open>DROP INDEX\<close>
  always is), and \<^verbatim>\<open>CREATE INDEX\<close> (the table, then the predicate's column when the
  predicate is transformed, then the indexed columns in \<^verbatim>\<open>ComputeIndexAttrs\<close>, and last
  the name in \<^verbatim>\<open>index_create\<close>, where \<^verbatim>\<open>IF NOT EXISTS\<close> turns a clash into a notice).
  A query string is parsed whole and then run in one implicit transaction: the first
  failing statement makes the query fail, and the caller keeps the schema it had
  (\<open>Inl\<close> carries no state). Not modelled: dependencies (an index that backs a constraint),
  privileges, locks, schemas and search paths, expression indexes.
\<close>

section \<open>Schema state\<close>

record index_def =
  ix_table :: ident
  ix_cols :: "ident list"
  ix_unique :: bool
  ix_pred :: "predicate option"

record schema =
  tables :: "ident \<rightharpoonup> ident list"
  indexes :: "ident \<rightharpoonup> index_def"
  settings :: "string setting_map"

definition rel_exists :: "schema \<Rightarrow> ident \<Rightarrow> bool" where
  "rel_exists db n \<longleftrightarrow> n \<in> dom (tables db) \<or> n \<in> dom (indexes db)"

fun pred_col :: "predicate \<Rightarrow> ident" where
  "pred_col (IsNull c) = c"
| "pred_col (IsNotNull c) = c"

fun first_error :: "'e option list \<Rightarrow> 'e option" where
  "first_error [] = None"
| "first_error (Some e # _) = Some e"
| "first_error (None # es) = first_error es"

section \<open>Statements\<close>

definition exec_set :: "set_scope \<Rightarrow> ident \<Rightarrow> string \<Rightarrow> schema \<Rightarrow> sql_error + schema" where
  "exec_set sc n v db =
     (if n \<notin> dom (settings db) then Inl (UnrecognizedParameter n)
      else if sc = LocalScope then Inr db
      else Inr (db\<lparr>settings := (settings db)(n \<mapsto> v)\<rparr>))"

definition drop_check :: "bool \<Rightarrow> schema \<Rightarrow> ident \<Rightarrow> sql_error option" where
  "drop_check ifex db n =
     (if n \<in> dom (indexes db) then None
      else if n \<in> dom (tables db) then Some (WrongObjectType n)
      else if ifex then None
      else Some (UndefinedObject n))"

definition exec_drop :: "bool \<Rightarrow> ident list \<Rightarrow> schema \<Rightarrow> sql_error + schema" where
  "exec_drop ifex ns db =
     (case first_error (map (drop_check ifex db) ns) of
        Some e \<Rightarrow> Inl e
      | None \<Rightarrow> Inr (db\<lparr>indexes := indexes db |` (- set ns)\<rparr>))"

definition missing_col :: "ident list \<Rightarrow> predicate option \<Rightarrow> ident list \<Rightarrow> ident option" where
  "missing_col tcols p cols =
     (case p of
        Some q \<Rightarrow> (if pred_col q \<notin> set tcols then Some (pred_col q) else find (\<lambda>c. c \<notin> set tcols) cols)
      | None \<Rightarrow> find (\<lambda>c. c \<notin> set tcols) cols)"

definition exec_create ::
  "bool \<Rightarrow> bool \<Rightarrow> ident \<Rightarrow> ident \<Rightarrow> ident list \<Rightarrow> predicate option \<Rightarrow> schema \<Rightarrow> sql_error + schema" where
  "exec_create uniq ine n tbl cols p db =
     (if tbl \<in> dom (indexes db) then Inl (WrongObjectType tbl)
      else case tables db tbl of
        None \<Rightarrow> Inl (UndefinedTable tbl)
      | Some tcols \<Rightarrow>
          (case missing_col tcols p cols of
             Some c \<Rightarrow> Inl (UndefinedColumn c)
           | None \<Rightarrow>
               (if rel_exists db n then (if ine then Inr db else Inl (DuplicateRelation n))
                else Inr (db\<lparr>indexes := (indexes db)(n \<mapsto>
                            \<lparr>ix_table = tbl, ix_cols = cols, ix_unique = uniq, ix_pred = p\<rparr>)\<rparr>))))"

fun exec_stmt :: "stmt \<Rightarrow> schema \<Rightarrow> sql_error + schema" where
  "exec_stmt (SetVar sc n v) db = exec_set sc n v db"
| "exec_stmt (DropIndex ifex ns) db = exec_drop ifex ns db"
| "exec_stmt (CreateIndex uniq ine n tbl cols p) db = exec_create uniq ine n tbl cols p db"

fun exec_stmts :: "stmt list \<Rightarrow> schema \<Rightarrow> sql_error + schema" where
  "exec_stmts [] db = Inr db"
| "exec_stmts (s # ss) db = (case exec_stmt s db of Inl e \<Rightarrow> Inl e | Inr db' \<Rightarrow> exec_stmts ss db')"

text \<open>\<^verbatim>\<open>QueryRunner.query(sql)\<close> on PostgreSQL: parse everything, then execute in order.\<close>

definition run_query :: "string \<Rightarrow> schema \<Rightarrow> sql_error + schema" where
  "run_query q db = (case parse_query q of Inl e \<Rightarrow> Inl e | Inr ss \<Rightarrow> exec_stmts ss db)"

section \<open>Well-formed catalogs\<close>

text \<open>
  The catalog invariant PostgreSQL keeps: an index is on an existing table and names only
  that table's columns (its predicate too), and no name is both a table and an index.
\<close>

definition index_wf :: "(ident \<rightharpoonup> ident list) \<Rightarrow> index_def \<Rightarrow> bool" where
  "index_wf tbls ix \<longleftrightarrow>
     (case tbls (ix_table ix) of
        None \<Rightarrow> False
      | Some cs \<Rightarrow> set (ix_cols ix) \<subseteq> set cs \<and> (case ix_pred ix of None \<Rightarrow> True | Some q \<Rightarrow> pred_col q \<in> set cs))"

definition schema_wf :: "schema \<Rightarrow> bool" where
  "schema_wf db \<longleftrightarrow>
     dom (tables db) \<inter> dom (indexes db) = {} \<and> (\<forall>ix\<in>ran (indexes db). index_wf (tables db) ix)"

lemmas exec_eval [sql_eval] =
  exec_set_def drop_check_def exec_drop_def missing_col_def exec_create_def rel_exists_def run_query_def

section \<open>Sequencing\<close>

lemma exec_stmts_append:
  "exec_stmts (xs @ ys) db = (case exec_stmts xs db of Inl e \<Rightarrow> Inl e | Inr db' \<Rightarrow> exec_stmts ys db')"
  by (induction xs arbitrary: db) (auto split: sum.splits)

lemma run_query_parse_error: "parse_query q = Inl e \<Longrightarrow> run_query q db = Inl e"
  by (simp add: run_query_def)

section \<open>The catalog invariant\<close>

lemma missing_col_None:
  "missing_col tcols p cols = None \<longleftrightarrow>
     set cols \<subseteq> set tcols \<and> (case p of None \<Rightarrow> True | Some q \<Rightarrow> pred_col q \<in> set tcols)"
  by (auto simp: missing_col_def find_None_iff split: option.split)

lemma schema_wf_settings [simp]: "schema_wf (db\<lparr>settings := s\<rparr>) = schema_wf db"
  by (simp add: schema_wf_def)

lemma schema_wf_restrict: "schema_wf db \<Longrightarrow> schema_wf (db\<lparr>indexes := indexes db |` A\<rparr>)"
  using ran_restrict_subset [of "indexes db" A] by (auto simp: schema_wf_def dom_restrict)

lemma exec_set_wf: "schema_wf db \<Longrightarrow> exec_set sc n v db = Inr db' \<Longrightarrow> schema_wf db'"
  by (auto simp: exec_set_def split: if_splits)

lemma exec_drop_wf: "schema_wf db \<Longrightarrow> exec_drop ifex ns db = Inr db' \<Longrightarrow> schema_wf db'"
  by (auto simp: exec_drop_def schema_wf_restrict split: option.splits)

lemma exec_create_wf:
  assumes wf: "schema_wf db" and ex: "exec_create uniq ine n tbl cols p db = Inr db'"
  shows "schema_wf db'"
proof (cases "rel_exists db n")
  case True
  with ex have "db' = db" by (auto simp: exec_create_def split: if_splits option.splits)
  with wf show ?thesis by simp
next
  case False
  let ?ix = "\<lparr>ix_table = tbl, ix_cols = cols, ix_unique = uniq, ix_pred = p\<rparr>"
  from ex False obtain tcols where t: "tables db tbl = Some tcols"
    and m: "missing_col tcols p cols = None" and d: "db' = db\<lparr>indexes := (indexes db)(n \<mapsto> ?ix)\<rparr>"
    by (auto simp: exec_create_def split: if_splits option.splits)
  have "index_wf (tables db) ?ix"
    using t m by (simp add: index_wf_def missing_col_None)
  with wf False d show ?thesis
    using ran_upd_subset [of "indexes db" n ?ix] by (auto simp: schema_wf_def rel_exists_def)
qed

lemma exec_stmt_wf:
  assumes wf: "schema_wf db" and ex: "exec_stmt s db = Inr db'"
  shows "schema_wf db'"
proof (cases s)
  case (SetVar sc n v)
  with ex have "exec_set sc n v db = Inr db'" by simp
  with wf show ?thesis by (rule exec_set_wf)
next
  case (DropIndex ifex ns)
  with ex have "exec_drop ifex ns db = Inr db'" by simp
  with wf show ?thesis by (rule exec_drop_wf)
next
  case (CreateIndex uniq ine n tbl cols p)
  with ex have "exec_create uniq ine n tbl cols p db = Inr db'" by simp
  with wf show ?thesis by (rule exec_create_wf)
qed

lemma exec_stmts_wf: "schema_wf db \<Longrightarrow> exec_stmts ss db = Inr db' \<Longrightarrow> schema_wf db'"
proof (induction ss arbitrary: db)
  case Nil
  then show ?case by simp
next
  case (Cons s ss)
  then obtain db1 where s: "exec_stmt s db = Inr db1" and ss: "exec_stmts ss db1 = Inr db'"
    by (auto split: sum.splits)
  from Cons.prems(1) s have "schema_wf db1" by (rule exec_stmt_wf)
  then show ?case using ss by (rule Cons.IH)
qed

text \<open>
  Every query PostgreSQL accepts keeps the catalog well formed: indexes
  stay on existing tables and their columns, and table and index names stay apart. A failing
  query leaves the catalog as it was, so the invariant holds after every query.
\<close>

lemma run_query_preserves_wf:
  assumes "schema_wf db" and "run_query q db = Inr db'"
  shows "schema_wf db'"
proof -
  from assms(2) obtain ss where "exec_stmts ss db = Inr db'"
    by (auto simp: run_query_def split: sum.splits)
  with assms(1) show ?thesis by (rule exec_stmts_wf)
qed

section \<open>Several names in one DROP INDEX\<close>

lemma drop_check_restrict:
  "m \<noteq> n \<Longrightarrow> drop_check ifex (db\<lparr>indexes := indexes db |` (- {n})\<rparr>) m = drop_check ifex db m"
  by (simp add: drop_check_def domIff)

text \<open>
  \<^verbatim>\<open>DROP INDEX\<close> with a list of distinct names, which checks every name
  before dropping any, has the same outcome, error or catalog, as one \<^verbatim>\<open>DROP INDEX\<close> per
  name in the same order: a name's check never depends on the other names being gone.
\<close>

lemma exec_drop_sequential:
  assumes "distinct ns"
  shows "exec_drop ifex ns db = exec_stmts (map (\<lambda>n. DropIndex ifex [n]) ns) db"
  using assms
proof (induction ns arbitrary: db)
  case Nil
  then show ?case by (simp add: exec_drop_def restrict_map_def)
next
  case (Cons n ns)
  let ?db1 = "db\<lparr>indexes := indexes db |` (- {n})\<rparr>"
  have same: "map (drop_check ifex ?db1) ns = map (drop_check ifex db) ns"
  proof (rule map_cong [OF refl])
    fix m assume "m \<in> set ns"
    with Cons.prems have "m \<noteq> n" by auto
    then show "drop_check ifex ?db1 m = drop_check ifex db m" by (rule drop_check_restrict)
  qed
  have "exec_stmts (map (\<lambda>n. DropIndex ifex [n]) ns) ?db1 = exec_drop ifex ns ?db1"
    using Cons by simp
  moreover have "- insert n (set ns) = - {n} \<inter> - set ns" by auto
  ultimately show ?case
    by (cases "drop_check ifex db n") (simp_all add: exec_drop_def same restrict_restrict split: option.splits)
qed

end
