(* ===== verification/Runner.thy ===== *)
theory Runner
  imports Prelude
begin

text \<open>
  The migration runner that calls a migration's \<^verbatim>\<open>up\<close> and \<^verbatim>\<open>down\<close> (TypeORM's
  \<^verbatim>\<open>MigrationExecutor\<close>, outside this repository), as the specification describes it:
  a history of units ordered by their identifier (the timestamp at the end of the class
  name), a ledger of the applied ones, \<open>apply\<close> of a pending unit whose predecessors are
  all applied, \<open>revert\<close> of the newest applied unit. A failing \<^verbatim>\<open>up\<close> or \<^verbatim>\<open>down\<close>
  leaves database and ledger as they were (the runner's transaction is rolled back); calls
  out of order are refused with \<open>OrderViolation\<close>. The database type and the error type
  of the units are parameters: the runner's lemmas hold for any unit, and the root theory
  instantiates them with the migration of this repository. \<open>run_pending\<close> is the run of all
  pending units in order (\<^verbatim>\<open>runMigrations\<close>): it applies them all when every \<open>up\<close>
  succeeds, and stops at the first failing unit with that unit's error.
\<close>

section \<open>Units, state and errors\<close>

record ('db, 'e) migration_unit =
  mu_id :: nat
  mu_name :: string
  mu_up :: "'db \<Rightarrow> 'e + 'db"
  mu_down :: "'db \<Rightarrow> 'e + 'db"

record 'db runner_state =
  rs_db :: 'db
  rs_ledger :: "nat list"

datatype 'e run_error = UnknownMigration nat | OrderViolation nat | StatementFailed 'e

definition unit_ids :: "('db, 'e) migration_unit list \<Rightarrow> nat list" where
  "unit_ids hist = map mu_id hist"

definition lookup_unit :: "('db, 'e) migration_unit list \<Rightarrow> nat \<Rightarrow> ('db, 'e) migration_unit option" where
  "lookup_unit hist i = find (\<lambda>m. mu_id m = i) hist"

text \<open>The history's identifiers are strictly increasing: unique, and in application order.\<close>

definition hist_ok :: "('db, 'e) migration_unit list \<Rightarrow> bool" where
  "hist_ok hist \<longleftrightarrow> sorted_wrt (<) (unit_ids hist)"

definition init_state :: "'db \<Rightarrow> 'db runner_state" where
  "init_state db = \<lparr>rs_db = db, rs_ledger = []\<rparr>"

section \<open>Operations\<close>

definition apply_unit ::
  "('db, 'e) migration_unit list \<Rightarrow> nat \<Rightarrow> 'db runner_state \<Rightarrow> 'e run_error + 'db runner_state" where
  "apply_unit hist i st =
     (case lookup_unit hist i of
        None \<Rightarrow> Inl (UnknownMigration i)
      | Some m \<Rightarrow>
          (if i \<in> set (rs_ledger st) \<or> list_ex (\<lambda>j. j < i \<and> j \<notin> set (rs_ledger st)) (unit_ids hist)
           then Inl (OrderViolation i)
           else (case mu_up m (rs_db st) of
                   Inl e \<Rightarrow> Inl (StatementFailed e)
                 | Inr db' \<Rightarrow> Inr (st\<lparr>rs_db := db', rs_ledger := rs_ledger st @ [i]\<rparr>))))"

definition revert_unit ::
  "('db, 'e) migration_unit list \<Rightarrow> nat \<Rightarrow> 'db runner_state \<Rightarrow> 'e run_error + 'db runner_state" where
  "revert_unit hist i st =
     (case lookup_unit hist i of
        None \<Rightarrow> Inl (UnknownMigration i)
      | Some m \<Rightarrow>
          (if i \<notin> set (rs_ledger st) \<or> list_ex (\<lambda>j. i < j) (rs_ledger st)
           then Inl (OrderViolation i)
           else (case mu_down m (rs_db st) of
                   Inl e \<Rightarrow> Inl (StatementFailed e)
                 | Inr db' \<Rightarrow> Inr (st\<lparr>rs_db := db', rs_ledger := removeAll i (rs_ledger st)\<rparr>))))"

text \<open>
  TypeORM's \<^verbatim>\<open>runMigrations\<close> (the command \<^verbatim>\<open>medusa migrations run\<close>): every pending unit,
  in history order, through \<open>apply_unit\<close>; the first failure ends the run and, the
  whole run being one transaction, the caller keeps the state it had.
\<close>

fun run_list ::
  "('db, 'e) migration_unit list \<Rightarrow> nat list \<Rightarrow> 'db runner_state \<Rightarrow> 'e run_error + 'db runner_state" where
  "run_list hist [] st = Inr st"
| "run_list hist (i # is) st =
     (case apply_unit hist i st of Inl e \<Rightarrow> Inl e | Inr st' \<Rightarrow> run_list hist is st')"

definition pending_ids :: "('db, 'e) migration_unit list \<Rightarrow> 'db runner_state \<Rightarrow> nat list" where
  "pending_ids hist st = filter (\<lambda>i. i \<notin> set (rs_ledger st)) (unit_ids hist)"

definition run_pending ::
  "('db, 'e) migration_unit list \<Rightarrow> 'db runner_state \<Rightarrow> 'e run_error + 'db runner_state" where
  "run_pending hist st = run_list hist (pending_ids hist st) st"

inductive runner_step ::
  "('db, 'e) migration_unit list \<Rightarrow> 'db runner_state \<Rightarrow> 'db runner_state \<Rightarrow> bool" for hist where
  apply_step: "apply_unit hist i st = Inr st' \<Longrightarrow> runner_step hist st st'"
| revert_step: "revert_unit hist i st = Inr st' \<Longrightarrow> runner_step hist st st'"

inductive reachable :: "('db, 'e) migration_unit list \<Rightarrow> 'db \<Rightarrow> 'db runner_state \<Rightarrow> bool"
  for hist db0 where
  init: "reachable hist db0 (init_state db0)"
| step: "reachable hist db0 st \<Longrightarrow> runner_step hist st st' \<Longrightarrow> reachable hist db0 st'"

inductive_cases runner_stepE: "runner_step hist st st'"

inductive_simps runner_step_simps: "runner_step hist st st'"

text \<open>The ledger is the list of the first identifiers of the history.\<close>

definition ledger_prefix :: "('db, 'e) migration_unit list \<Rightarrow> 'db runner_state \<Rightarrow> bool" where
  "ledger_prefix hist st \<longleftrightarrow> rs_ledger st = take (length (rs_ledger st)) (unit_ids hist)"

text \<open>
  The abstract runner: a counter of applied units out of \<open>n\<close>. It moves up by one while
  some unit is pending and down by one while some unit is applied.
\<close>

definition counter_step :: "nat \<Rightarrow> nat \<Rightarrow> nat \<Rightarrow> bool" where
  "counter_step n k k' \<longleftrightarrow> (k < n \<and> k' = Suc k) \<or> (0 < k \<and> k' = k - 1)"

section \<open>What a successful call did\<close>

lemma lookup_unit_Some: "lookup_unit hist i = Some m \<Longrightarrow> m \<in> set hist \<and> mu_id m = i"
  by (auto simp: lookup_unit_def find_Some_iff)

lemma lookup_unit_id: "lookup_unit hist i = Some m \<Longrightarrow> i \<in> set (unit_ids hist)"
  by (auto simp: unit_ids_def dest!: lookup_unit_Some)

lemma apply_unit_Inr:
  assumes "apply_unit hist i st = Inr st'"
  obtains m where "lookup_unit hist i = Some m" and "i \<notin> set (rs_ledger st)"
    and "\<forall>j\<in>set (unit_ids hist). j < i \<longrightarrow> j \<in> set (rs_ledger st)"
    and "mu_up m (rs_db st) = Inr (rs_db st')" and "rs_ledger st' = rs_ledger st @ [i]"
  using assms
  by (auto simp: apply_unit_def list_ex_iff split: option.splits if_splits sum.splits)

lemma revert_unit_Inr:
  assumes "revert_unit hist i st = Inr st'"
  obtains m where "lookup_unit hist i = Some m" and "i \<in> set (rs_ledger st)"
    and "\<not> list_ex (\<lambda>j. i < j) (rs_ledger st)"
    and "mu_down m (rs_db st) = Inr (rs_db st')" and "rs_ledger st' = removeAll i (rs_ledger st)"
  using assms
  by (auto simp: revert_unit_def split: option.splits if_splits sum.splits)

section \<open>The ledger invariant\<close>

lemma ledger_prefix_init: "ledger_prefix hist (init_state db)"
  by (simp add: ledger_prefix_def init_state_def)

lemma ledger_prefix_apply:
  assumes ok: "hist_ok hist" and inv: "ledger_prefix hist st" and ap: "apply_unit hist i st = Inr st'"
  shows "ledger_prefix hist st'"
proof -
  let ?k = "length (rs_ledger st)"
  from ap obtain m where lk: "lookup_unit hist i = Some m" and ni: "i \<notin> set (rs_ledger st)"
    and below: "\<forall>j\<in>set (unit_ids hist). j < i \<longrightarrow> j \<in> set (rs_ledger st)"
    and led: "rs_ledger st' = rs_ledger st @ [i]"
    by (rule apply_unit_Inr)
  from inv have l: "rs_ledger st = take ?k (unit_ids hist)" by (simp add: ledger_prefix_def)
  have "take ?k (unit_ids hist) @ [i] = take (Suc ?k) (unit_ids hist)"
    using ok lookup_unit_id [OF lk] ni below l
    by (intro sorted_less_take_snoc) (simp_all add: hist_ok_def)
  with led l have "rs_ledger st' = take (Suc ?k) (unit_ids hist)" by metis
  then show ?thesis by (metis ledger_prefix_def take_length_take)
qed

lemma ledger_prefix_revert:
  assumes ok: "hist_ok hist" and inv: "ledger_prefix hist st" and rv: "revert_unit hist i st = Inr st'"
  shows "ledger_prefix hist st'"
proof -
  let ?k = "length (rs_ledger st)"
  from rv obtain m where ii: "i \<in> set (rs_ledger st)" and top: "\<not> list_ex (\<lambda>j. i < j) (rs_ledger st)"
    and led: "rs_ledger st' = removeAll i (rs_ledger st)"
    by (rule revert_unit_Inr)
  from inv have l: "rs_ledger st = take ?k (unit_ids hist)" by (simp add: ledger_prefix_def)
  then have kl: "?k \<le> length (unit_ids hist)" by (rule take_eq_bound)
  have "removeAll i (take ?k (unit_ids hist)) = take (?k - 1) (unit_ids hist)"
    using ok kl ii top l by (intro sorted_less_removeAll_last) (simp_all add: hist_ok_def)
  with led l show ?thesis by (metis ledger_prefix_def take_length_take)
qed

lemma runner_step_ledger_prefix:
  "hist_ok hist \<Longrightarrow> runner_step hist st st' \<Longrightarrow> ledger_prefix hist st \<Longrightarrow> ledger_prefix hist st'"
  by (erule runner_stepE) (blast intro: ledger_prefix_apply ledger_prefix_revert)+

lemma reachable_ledger_prefix:
  "reachable hist db0 st \<Longrightarrow> hist_ok hist \<Longrightarrow> ledger_prefix hist st"
proof (induction rule: reachable.induct)
  case init
  show ?case by (rule ledger_prefix_init)
next
  case (step st st')
  then show ?case by (blast intro: runner_step_ledger_prefix)
qed

section \<open>Units whose \<open>up\<close> always fails\<close>

lemma hist_ok_unique:
  assumes "hist_ok hist" and "m \<in> set hist" and "m' \<in> set hist" and "mu_id m = mu_id m'"
  shows "m = m'"
proof -
  from assms(1) have "distinct (map mu_id hist)" by (simp add: hist_ok_def unit_ids_def strict_sorted_iff)
  then have "inj_on mu_id (set hist)" by (simp add: distinct_map)
  with assms(2-4) show ?thesis by (simp add: inj_on_def)
qed

lemma lookup_unit_unique:
  "hist_ok hist \<Longrightarrow> lookup_unit hist i = Some m \<Longrightarrow> m' \<in> set hist \<Longrightarrow> mu_id m' = i \<Longrightarrow> m = m'"
  by (metis hist_ok_unique lookup_unit_Some)

lemma apply_unit_failing:
  assumes "hist_ok hist" and "m \<in> set hist" and "\<And>db. \<exists>e. mu_up m db = Inl e"
  shows "apply_unit hist (mu_id m) st \<noteq> Inr st'"
proof
  assume ap: "apply_unit hist (mu_id m) st = Inr st'"
  then obtain m0 where lk: "lookup_unit hist (mu_id m) = Some m0"
    and up: "mu_up m0 (rs_db st) = Inr (rs_db st')"
    by (rule apply_unit_Inr)
  from assms(1) lk assms(2) have "m0 = m" by (rule lookup_unit_unique) simp
  with up assms(3) [of "rs_db st"] show False by auto
qed

lemma reachable_failing_unit_pending:
  assumes "reachable hist db0 st" and "hist_ok hist" and "m \<in> set hist"
    and "\<And>db. \<exists>e. mu_up m db = Inl e"
  shows "mu_id m \<notin> set (rs_ledger st)"
  using assms(1)
proof (induction rule: reachable.induct)
  case init
  show ?case by (simp add: init_state_def)
next
  case (step st st')
  from step.hyps(2) obtain i where "apply_unit hist i st = Inr st' \<or> revert_unit hist i st = Inr st'"
    by (auto simp: runner_step_simps)
  then show ?case
  proof
    assume ap: "apply_unit hist i st = Inr st'"
    then obtain m0 where "rs_ledger st' = rs_ledger st @ [i]" by (rule apply_unit_Inr)
    moreover have "i \<noteq> mu_id m"
    proof
      assume "i = mu_id m"
      with ap apply_unit_failing [OF assms(2-4), of st st'] show False by simp
    qed
    ultimately show ?thesis using step.IH by simp
  next
    assume "revert_unit hist i st = Inr st'"
    then obtain m0 where "rs_ledger st' = removeAll i (rs_ledger st)" by (rule revert_unit_Inr)
    with step.IH show ?thesis by simp
  qed
qed

lemma ledger_prefix_below:
  assumes "hist_ok hist" and "ledger_prefix hist st" and "j \<in> set (rs_ledger st)"
    and "i \<in> set (unit_ids hist)" and "i < j"
  shows "i \<in> set (rs_ledger st)"
proof -
  define k where "k = length (rs_ledger st)"
  from assms(2) have l: "rs_ledger st = take k (unit_ids hist)"
    unfolding ledger_prefix_def k_def [symmetric] .
  from assms(3) l have j: "j \<in> set (take k (unit_ids hist))" by simp
  from assms(1) have "sorted_wrt (<) (unit_ids hist)" by (simp add: hist_ok_def)
  from this j assms(4,5) have "i \<in> set (take k (unit_ids hist))"
    by (rule sorted_less_take_below)
  with l show ?thesis by simp
qed

lemma lookup_unit_member:
  assumes "hist_ok hist" and "m \<in> set hist"
  shows "lookup_unit hist (mu_id m) = Some m"
proof -
  from assms(2) have "lookup_unit hist (mu_id m) \<noteq> None"
    by (auto simp: lookup_unit_def find_None_iff)
  then obtain m' where lk: "lookup_unit hist (mu_id m) = Some m'" by blast
  from assms(1) lk assms(2) have "m' = m" by (rule lookup_unit_unique) simp
  with lk show ?thesis by simp
qed

section \<open>Running all pending migrations\<close>

lemma hist_ok_distinct: "hist_ok hist \<Longrightarrow> distinct (unit_ids hist)"
  by (simp add: hist_ok_def strict_sorted_iff)

lemma apply_unit_at:
  assumes ok: "hist_ok hist" and l: "rs_ledger st = take k (unit_ids hist)"
    and k: "k < length (unit_ids hist)"
  shows "apply_unit hist (unit_ids hist ! k) st =
           (case mu_up (hist ! k) (rs_db st) of
              Inl e \<Rightarrow> Inl (StatementFailed e)
            | Inr db' \<Rightarrow> Inr (st\<lparr>rs_db := db', rs_ledger := take (Suc k) (unit_ids hist)\<rparr>))"
proof -
  let ?ids = "unit_ids hist"
  let ?i = "?ids ! k"
  have i: "?i = mu_id (hist ! k)" using k by (simp add: unit_ids_def)
  have mem: "hist ! k \<in> set hist" using k by (simp add: unit_ids_def)
  have lk: "lookup_unit hist ?i = Some (hist ! k)" unfolding i using ok mem by (rule lookup_unit_member)
  have ni: "?i \<notin> set (rs_ledger st)"
    unfolding l using hist_ok_distinct [OF ok] k by (rule distinct_nth_notin_take)
  have below: "\<not> list_ex (\<lambda>j. j < ?i \<and> j \<notin> set (rs_ledger st)) ?ids"
  proof
    assume "list_ex (\<lambda>j. j < ?i \<and> j \<notin> set (rs_ledger st)) ?ids"
    then obtain j where j: "j \<in> set ?ids" "j < ?i" "j \<notin> set (take k ?ids)"
      by (auto simp: list_ex_iff l)
    have "?i \<in> set (take (Suc k) ?ids)" using k by (simp add: take_Suc_conv_app_nth)
    from ok [unfolded hist_ok_def] this j(1,2) have "j \<in> set (take (Suc k) ?ids)"
      by (rule sorted_less_take_below)
    with j(2,3) k show False by (simp add: take_Suc_conv_app_nth)
  qed
  have "take k ?ids @ [?i] = take (Suc k) ?ids" using k by (simp add: take_Suc_conv_app_nth)
  with lk ni below l show ?thesis by (simp add: apply_unit_def split: sum.split)
qed

lemma drop_Cons_nth: "k < length xs \<Longrightarrow> drop k xs = xs ! k # drop (Suc k) xs"
  by (simp add: Cons_nth_drop_Suc)

lemma run_list_upto:
  assumes ok: "hist_ok hist" and l: "rs_ledger st = take k (unit_ids hist)"
    and kj: "k \<le> j" and j: "j \<le> length (unit_ids hist)"
    and ups: "\<forall>i<j. \<forall>db. \<exists>db'. mu_up (hist ! i) db = Inr db'"
  shows "\<exists>st'. rs_ledger st' = take j (unit_ids hist) \<and>
           run_list hist (drop k (unit_ids hist)) st = run_list hist (drop j (unit_ids hist)) st'"
  using l kj
proof (induction "j - k" arbitrary: k st)
  case 0
  then show ?case by auto
next
  case (Suc n)
  then have kj': "k < j" and k: "k < length (unit_ids hist)" using j by auto
  with ups obtain db' where up: "mu_up (hist ! k) (rs_db st) = Inr db'" by blast
  let ?st1 = "st\<lparr>rs_db := db', rs_ledger := take (Suc k) (unit_ids hist)\<rparr>"
  have ap: "apply_unit hist (unit_ids hist ! k) st = Inr ?st1"
    using apply_unit_at [OF ok Suc.prems(1) k] up by simp
  have "\<exists>st'. rs_ledger st' = take j (unit_ids hist) \<and>
      run_list hist (drop (Suc k) (unit_ids hist)) ?st1 = run_list hist (drop j (unit_ids hist)) st'"
    using Suc.hyps(2) kj' by (intro Suc.hyps(1)) simp_all
  then obtain st' where led: "rs_ledger st' = take j (unit_ids hist)"
    and r: "run_list hist (drop (Suc k) (unit_ids hist)) ?st1 = run_list hist (drop j (unit_ids hist)) st'"
    by blast
  have "run_list hist (drop k (unit_ids hist)) st = run_list hist (drop j (unit_ids hist)) st'"
    using ap r by (simp add: drop_Cons_nth [OF k])
  with led show ?case by blast
qed

lemma run_list_all_applied:
  assumes ok: "hist_ok hist" and l: "rs_ledger st = take k (unit_ids hist)"
    and ups: "\<forall>m\<in>set hist. \<forall>db. \<exists>db'. mu_up m db = Inr db'"
  shows "\<exists>st'. run_list hist (drop k (unit_ids hist)) st = Inr st' \<and> rs_ledger st' = unit_ids hist"
proof (cases "k \<le> length (unit_ids hist)")
  case True
  have "\<forall>i<length (unit_ids hist). \<forall>db. \<exists>db'. mu_up (hist ! i) db = Inr db'"
    using ups by (simp add: unit_ids_def)
  with run_list_upto [OF ok l True order_refl] obtain st'
    where "rs_ledger st' = take (length (unit_ids hist)) (unit_ids hist)"
    and "run_list hist (drop k (unit_ids hist)) st = run_list hist [] st'"
    by auto
  then show ?thesis by simp
next
  case False
  with l show ?thesis by simp
qed

lemma run_list_fails_at:
  assumes ok: "hist_ok hist" and l: "rs_ledger st = take k (unit_ids hist)"
    and kj: "k \<le> j" and j: "j < length (unit_ids hist)"
    and ups: "\<forall>i<j. \<forall>db. \<exists>db'. mu_up (hist ! i) db = Inr db'"
    and fails: "\<forall>db. mu_up (hist ! j) db = Inl e"
  shows "run_list hist (drop k (unit_ids hist)) st = Inl (StatementFailed e)"
proof -
  obtain st' where led: "rs_ledger st' = take j (unit_ids hist)"
    and r: "run_list hist (drop k (unit_ids hist)) st = run_list hist (drop j (unit_ids hist)) st'"
    using run_list_upto [OF ok l kj _ ups] j by auto
  have "apply_unit hist (unit_ids hist ! j) st' = Inl (StatementFailed e)"
    using apply_unit_at [OF ok led j] fails by simp
  with r show ?thesis by (simp add: drop_Cons_nth [OF j])
qed

lemma run_list_ledger:
  "run_list hist is st = Inr st' \<Longrightarrow> rs_ledger st' = rs_ledger st @ is"
proof (induction "is" arbitrary: st)
  case Nil
  then show ?case by simp
next
  case (Cons i "is")
  then obtain st1 where ap: "apply_unit hist i st = Inr st1" and r: "run_list hist is st1 = Inr st'"
    by (auto split: sum.splits)
  from ap obtain m where "rs_ledger st1 = rs_ledger st @ [i]" by (rule apply_unit_Inr)
  with Cons.IH [OF r] show ?case by simp
qed

lemma run_list_reachable:
  "run_list hist is st = Inr st' \<Longrightarrow> reachable hist db0 st \<Longrightarrow> reachable hist db0 st'"
proof (induction "is" arbitrary: st)
  case Nil
  then show ?case by simp
next
  case (Cons i "is")
  then obtain st1 where ap: "apply_unit hist i st = Inr st1" and r: "run_list hist is st1 = Inr st'"
    by (auto split: sum.splits)
  from Cons.prems(2) runner_step.apply_step [OF ap] have "reachable hist db0 st1"
    by (rule reachable.step)
  with r show ?case by (rule Cons.IH)
qed

text \<open>
  Liveness: when every unit's \<open>up\<close> succeeds on every database, running the pending
  migrations from any state whose ledger is a prefix of a well-ordered history (every
  reachable state is one) succeeds and leaves every unit of the history applied, in order.
\<close>

lemma run_pending_applies_all:
  assumes ok: "hist_ok hist" and inv: "ledger_prefix hist st"
    and ups: "\<forall>m\<in>set hist. \<forall>db. \<exists>db'. mu_up m db = Inr db'"
  shows "\<exists>st'. run_pending hist st = Inr st' \<and> rs_ledger st' = unit_ids hist"
proof -
  define k where "k = length (rs_ledger st)"
  from inv have l: "rs_ledger st = take k (unit_ids hist)"
    unfolding ledger_prefix_def k_def [symmetric] .
  have "pending_ids hist st = drop k (unit_ids hist)"
    unfolding pending_ids_def l using hist_ok_distinct [OF ok] by (rule filter_notin_take)
  with run_list_all_applied [OF ok l ups] show ?thesis by (simp add: run_pending_def)
qed

text \<open>
  Progress up to a failing unit: when every unit before the pending unit at position \<open>j\<close>
  succeeds and that unit's \<open>up\<close> always fails with \<open>e\<close>, the run applies the units
  before it and stops there with \<open>e\<close> (the whole run then being rolled back).
\<close>

lemma ledger_prefix_pending_bound:
  assumes inv: "ledger_prefix hist st" and j: "j < length hist"
    and pend: "mu_id (hist ! j) \<notin> set (rs_ledger st)"
  shows "length (rs_ledger st) \<le> j"
proof (rule ccontr)
  define k where "k = length (rs_ledger st)"
  from inv have l: "rs_ledger st = take k (unit_ids hist)"
    unfolding ledger_prefix_def k_def [symmetric] .
  assume "\<not> length (rs_ledger st) \<le> j"
  then have nkj: "j < k" by (simp add: k_def)
  with j have "j < length (take k (unit_ids hist))" by (simp add: unit_ids_def)
  then have "take k (unit_ids hist) ! j \<in> set (take k (unit_ids hist))" by (rule nth_mem)
  moreover have "take k (unit_ids hist) ! j = mu_id (hist ! j)" using nkj j by (simp add: unit_ids_def)
  ultimately show False using l pend by simp
qed

lemma run_pending_stops_at:
  assumes ok: "hist_ok hist" and inv: "ledger_prefix hist st" and j: "j < length hist"
    and pend: "mu_id (hist ! j) \<notin> set (rs_ledger st)"
    and ups: "\<forall>i<j. \<forall>db. \<exists>db'. mu_up (hist ! i) db = Inr db'"
    and fails: "\<forall>db. mu_up (hist ! j) db = Inl e"
  shows "run_pending hist st = Inl (StatementFailed e)"
proof -
  define k where "k = length (rs_ledger st)"
  from inv have l: "rs_ledger st = take k (unit_ids hist)"
    unfolding ledger_prefix_def k_def [symmetric] .
  have jl: "j < length (unit_ids hist)" using j by (simp add: unit_ids_def)
  have "k \<le> j" unfolding k_def using inv j pend by (rule ledger_prefix_pending_bound)
  have "pending_ids hist st = drop k (unit_ids hist)"
    unfolding pending_ids_def l using hist_ok_distinct [OF ok] by (rule filter_notin_take)
  with run_list_fails_at [OF ok l \<open>k \<le> j\<close> jl ups fails] show ?thesis by (simp add: run_pending_def)
qed

section \<open>The runner refines a counter\<close>

lemma ledger_prefix_distinct: "hist_ok hist \<Longrightarrow> ledger_prefix hist st \<Longrightarrow> distinct (rs_ledger st)"
  unfolding ledger_prefix_def by (metis distinct_take hist_ok_distinct)

lemma ledger_prefix_length: "ledger_prefix hist st \<Longrightarrow> length (rs_ledger st) \<le> length hist"
  unfolding ledger_prefix_def by (metis take_eq_bound length_map unit_ids_def)

text \<open>
  Simulation: every step of the runner from a state whose ledger is a prefix of the
  history is a step of the counter on the length of the ledger, and the ledger is the
  prefix of that length (the abstraction determines the concrete ledger).
\<close>

lemma runner_step_counter:
  assumes ok: "hist_ok hist" and inv: "ledger_prefix hist st" and step: "runner_step hist st st'"
  shows "counter_step (length hist) (length (rs_ledger st)) (length (rs_ledger st')) \<and> ledger_prefix hist st'"
proof -
  have inv': "ledger_prefix hist st'" using ok step inv by (rule runner_step_ledger_prefix)
  from step show ?thesis
  proof (cases rule: runner_step.cases)
    case (apply_step i)
    then obtain m where "rs_ledger st' = rs_ledger st @ [i]" by (rule apply_unit_Inr)
    moreover have "length (rs_ledger st') \<le> length hist" using inv' by (rule ledger_prefix_length)
    ultimately show ?thesis using inv' by (simp add: counter_step_def)
  next
    case (revert_step i)
    then obtain m where ii: "i \<in> set (rs_ledger st)" and led: "rs_ledger st' = removeAll i (rs_ledger st)"
      by (rule revert_unit_Inr)
    have "distinct (rs_ledger st)" using ok inv by (rule ledger_prefix_distinct)
    with ii have "length (removeAll i (rs_ledger st)) = length (rs_ledger st) - 1"
      by (simp add: distinct_remove1_removeAll [symmetric] length_remove1)
    moreover from ii have "0 < length (rs_ledger st)" by (cases "rs_ledger st") auto
    ultimately show ?thesis using inv' led by (simp add: counter_step_def)
  qed
qed

end
