(* ===== verification/Migration.thy ===== *)
theory Migration
  imports Sql_Exec Runner
begin

text \<open>
  The migration class \<^verbatim>\<open>productSearchGinIndexes1679950645254\<close> of
  \<^verbatim>\<open>src/packages/medusa/src/migrations/1679950645254-product-domain-impoved-indexes.ts\<close>.
  Its two methods each send one template literal to \<^verbatim>\<open>queryRunner.query\<close>; the literals
  are translated here line by line, each line with its indentation and its newline, and
  composed as the source writes them. \<open>up\<close> and \<open>down\<close> run them through
  \<open>run_query\<close>. The theory proves what PostgreSQL does with each literal, and what the
  statements of \<open>up\<close> below its comment lines do to a schema.
\<close>

section \<open>The SQL of \<open>up\<close>, line by line\<close>

definition up_hint_comment :: string where
  \<open>up_hint_comment = ''      // If you want to reset it to 'on' run 'set enable_nestloop to on;'\<newline>''\<close>

definition up_nestloop_comment :: string where
  \<open>up_nestloop_comment = ''      // Improve large IN queries, since we have separate queries everytime it is better to turn it off\<newline>''\<close>

definition up_set_nestloop :: string where
  \<open>up_set_nestloop = ''      set enable_nestloop to off;\<newline>''\<close>

definition up_drop_ma_variant :: string where
  \<open>up_drop_ma_variant = ''      DROP INDEX IF EXISTS "IDX_17a06d728e4cfbc5bd2ddb70af";\<newline>''\<close>

definition up_create_ma_variant :: string where
  \<open>up_create_ma_variant = ''      CREATE INDEX IF NOT EXISTS idx_money_amount_variant_id ON money_amount (variant_id) WHERE deleted_at is null;\<newline>''\<close>

definition up_drop_ma_region :: string where
  \<open>up_drop_ma_region = ''      DROP INDEX IF EXISTS "IDX_b433e27b7a83e6d12ab26b15b0";\<newline>''\<close>

definition up_create_ma_region :: string where
  \<open>up_create_ma_region = ''      CREATE INDEX IF NOT EXISTS idx_money_amount_region_id ON money_amount (region_id) WHERE deleted_at is null;\<newline>''\<close>

definition up_drop_pov_variant :: string where
  \<open>up_drop_pov_variant = ''      DROP INDEX IF EXISTS "IDX_7234ed737ff4eb1b6ae6e6d7b0";\<newline>''\<close>

definition up_create_pov_variant :: string where
  \<open>up_create_pov_variant = ''      CREATE INDEX IF NOT EXISTS idx_product_option_value_variant_id ON product_option_value (variant_id) WHERE deleted_at is null;\<newline>''\<close>

definition up_drop_pov_option :: string where
  \<open>up_drop_pov_option = ''      DROP INDEX IF EXISTS "IDX_cdf4388f294b30a25c627d69fe";\<newline>''\<close>

definition up_create_pov_option :: string where
  \<open>up_create_pov_option = ''      CREATE INDEX IF NOT EXISTS idx_product_option_value_option_id ON product_option_value (option_id) WHERE deleted_at is null;\<newline>''\<close>

text \<open>Lines 8 to 21: the statements, separated by a line of six blanks and three empty lines.\<close>

definition up_statements_sql :: string where
  "up_statements_sql =
     up_set_nestloop @ ''      \<newline>'' @
     up_drop_ma_variant @ up_create_ma_variant @ ''\<newline>'' @
     up_drop_ma_region @ up_create_ma_region @ ''\<newline>'' @
     up_drop_pov_variant @ up_create_pov_variant @ ''\<newline>'' @
     up_drop_pov_option @ up_create_pov_option @ ''    ''"

text \<open>The whole template literal of \<open>up\<close>: it opens with a newline and the two comment lines.\<close>

definition up_sql :: string where
  "up_sql = ''\<newline>'' @ up_hint_comment @ up_nestloop_comment @ up_statements_sql"

section \<open>The SQL of \<open>down\<close>, line by line\<close>

definition down_drop_ma_variant :: string where
  \<open>down_drop_ma_variant = ''      DROP IF EXISTS idx_money_amount_variant_id;\<newline>''\<close>

definition down_drop_ma_region :: string where
  \<open>down_drop_ma_region = ''      DROP IF EXISTS idx_money_amount_region_id;\<newline>''\<close>

definition down_drop_pov_variant :: string where
  \<open>down_drop_pov_variant = ''      DROP IF EXISTS idx_product_option_value_variant_id;\<newline>''\<close>

definition down_drop_pov_option :: string where
  \<open>down_drop_pov_option = ''      DROP IF EXISTS idx_product_option_value_option_id;\<newline>''\<close>

definition down_create_ma_variant :: string where
  \<open>down_create_ma_variant = ''      CREATE INDEX IF NOT EXISTS "IDX_17a06d728e4cfbc5bd2ddb70af" ON "money_amount" ("variant_id");\<newline>''\<close>

definition down_create_ma_region :: string where
  \<open>down_create_ma_region = ''      CREATE INDEX IF NOT EXISTS "IDX_b433e27b7a83e6d12ab26b15b0" ON "money_amount" ("region_id");\<newline>''\<close>

definition down_create_pov_variant :: string where
  \<open>down_create_pov_variant = ''      CREATE INDEX IF NOT EXISTS "IDX_7234ed737ff4eb1b6ae6e6d7b0" ON "product_option_value" ("variant_id");\<newline>''\<close>

definition down_create_pov_option :: string where
  \<open>down_create_pov_option = ''      CREATE INDEX IF NOT EXISTS "IDX_cdf4388f294b30a25c627d69fe" ON "product_option_value" ("option_id");\<newline>''\<close>

definition down_drops_sql :: string where
  "down_drops_sql = down_drop_ma_variant @ down_drop_ma_region @ down_drop_pov_variant @ down_drop_pov_option"

definition down_creates_sql :: string where
  "down_creates_sql =
     down_create_ma_variant @ down_create_ma_region @ down_create_pov_variant @ down_create_pov_option @ ''    ''"

definition down_sql :: string where
  "down_sql = ''\<newline>'' @ down_drops_sql @ ''      \<newline>'' @ down_creates_sql"

section \<open>The class\<close>

text \<open>\<^verbatim>\<open>await queryRunner.query(...)\<close>: the method fails with the query's error.\<close>

definition up :: "schema \<Rightarrow> sql_error + schema" where
  "up db = run_query up_sql db"

definition down :: "schema \<Rightarrow> sql_error + schema" where
  "down db = run_query down_sql db"

definition productSearchGinIndexes1679950645254 :: "(schema, sql_error) migration_unit" where
  "productSearchGinIndexes1679950645254 =
     \<lparr>mu_id = 1679950645254, mu_name = ''productSearchGinIndexes1679950645254'',
      mu_up = up, mu_down = down\<rparr>"

lemmas up_lines =
  up_hint_comment_def up_nestloop_comment_def up_set_nestloop_def
  up_drop_ma_variant_def up_create_ma_variant_def up_drop_ma_region_def up_create_ma_region_def
  up_drop_pov_variant_def up_create_pov_variant_def up_drop_pov_option_def up_create_pov_option_def

lemmas down_lines =
  down_drop_ma_variant_def down_drop_ma_region_def down_drop_pov_variant_def down_drop_pov_option_def
  down_create_ma_variant_def down_create_ma_region_def down_create_pov_variant_def
  down_create_pov_option_def

section \<open>What PostgreSQL makes of the two literals\<close>

lemma parse_up_sql: "parse_query up_sql = Inl (SyntaxError (TOp ''//''))"
  unfolding up_sql_def up_statements_sql_def up_lines by code_simp

lemma parse_down_sql: "parse_query down_sql = Inl (SyntaxError (TIdent ''if''))"
  unfolding down_sql_def down_drops_sql_def down_creates_sql_def down_lines by code_simp

section \<open>What the statements of \<open>up\<close> promise\<close>

text \<open>
  Lines 10 to 20 replace four unfiltered indexes by partial ones, pair by pair:
  (legacy index, new index, table, column).
\<close>

definition index_swaps :: "(ident \<times> ident \<times> ident \<times> ident) list" where
  "index_swaps =
     [(''IDX_17a06d728e4cfbc5bd2ddb70af'', ''idx_money_amount_variant_id'', ''money_amount'', ''variant_id''),
      (''IDX_b433e27b7a83e6d12ab26b15b0'', ''idx_money_amount_region_id'', ''money_amount'', ''region_id''),
      (''IDX_7234ed737ff4eb1b6ae6e6d7b0'', ''idx_product_option_value_variant_id'', ''product_option_value'', ''variant_id''),
      (''IDX_cdf4388f294b30a25c627d69fe'', ''idx_product_option_value_option_id'', ''product_option_value'', ''option_id'')]"

definition partial_index :: "ident \<Rightarrow> ident \<Rightarrow> index_def" where
  "partial_index tbl col =
     \<lparr>ix_table = tbl, ix_cols = [col], ix_unique = False, ix_pred = Some (IsNull ''deleted_at'')\<rparr>"

fun swap_stmts :: "(ident \<times> ident \<times> ident \<times> ident) list \<Rightarrow> stmt list" where
  "swap_stmts [] = []"
| "swap_stmts ((old, new, tbl, col) # ps) =
     DropIndex True [old] # CreateIndex False True new tbl [col] (Some (IsNull ''deleted_at'')) # swap_stmts ps"

text \<open>
  The contract of a list of swaps: a legacy index is gone, a new name that was free holds
  the partial index, a new name already taken keeps what it had, every other index stays.
\<close>

definition swap_indexes :: "(ident \<times> ident \<times> ident \<times> ident) list \<Rightarrow> schema \<Rightarrow> ident \<Rightarrow> index_def option" where
  "swap_indexes ps db n =
     (case find (\<lambda>(old, new, _, _). n = old \<or> n = new) ps of
        None \<Rightarrow> indexes db n
      | Some (old, new, tbl, col) \<Rightarrow>
          (if n = old then None else if rel_exists db n then indexes db n else Some (partial_index tbl col)))"

text \<open>
  When the swaps cannot fail: names distinct, no legacy name is a table, the tables exist
  with the indexed column and \<open>deleted_at\<close>, and no new index takes a table's name.
\<close>

definition swaps_pre :: "(ident \<times> ident \<times> ident \<times> ident) list \<Rightarrow> schema \<Rightarrow> bool" where
  "swaps_pre ps db \<longleftrightarrow>
     distinct (map fst ps @ map (fst \<circ> snd) ps) \<and>
     list_all (\<lambda>(old, new, tbl, col).
        old \<notin> dom (tables db) \<and> tbl \<notin> dom (indexes db) \<and> new \<notin> set (map (fst \<circ> snd \<circ> snd) ps) \<and>
        (case tables db tbl of None \<Rightarrow> False | Some cs \<Rightarrow> col \<in> set cs \<and> ''deleted_at'' \<in> set cs)) ps"

definition up_pre :: "schema \<Rightarrow> bool" where
  "up_pre db \<longleftrightarrow> swaps_pre index_swaps db \<and> ''enable_nestloop'' \<in> dom (settings db)"

definition up_contract :: "schema \<Rightarrow> schema" where
  "up_contract db =
     db\<lparr>settings := (settings db)(''enable_nestloop'' \<mapsto> ''off''), indexes := swap_indexes index_swaps db\<rparr>"

text \<open>One swap: drop the legacy index, then create the partial one unless its name is taken.\<close>

definition swap_step :: "ident \<times> ident \<times> ident \<times> ident \<Rightarrow> schema \<Rightarrow> schema" where
  "swap_step p db =
     (case p of (old, new, tbl, col) \<Rightarrow>
        (let db1 = db\<lparr>indexes := indexes db |` (- {old})\<rparr> in
         if rel_exists db1 new then db1
         else db1\<lparr>indexes := (indexes db1)(new \<mapsto> partial_index tbl col)\<rparr>))"

lemma swaps_pre_Cons:
  "swaps_pre ((old, new, tbl, col) # ps) db \<longleftrightarrow>
     old \<notin> set (map fst ps) \<and> new \<notin> set (map (fst \<circ> snd) ps) \<and> old \<noteq> new \<and>
     old \<notin> set (map (fst \<circ> snd) ps) \<and> new \<notin> set (map fst ps) \<and>
     distinct (map fst ps @ map (fst \<circ> snd) ps) \<and>
     old \<notin> dom (tables db) \<and> tbl \<notin> dom (indexes db) \<and>
     new \<noteq> tbl \<and> new \<notin> set (map (fst \<circ> snd \<circ> snd) ps) \<and>
     (case tables db tbl of None \<Rightarrow> False | Some cs \<Rightarrow> col \<in> set cs \<and> ''deleted_at'' \<in> set cs) \<and>
     list_all (\<lambda>(old', new', tbl', col').
        old' \<notin> dom (tables db) \<and> tbl' \<notin> dom (indexes db) \<and> new' \<noteq> tbl \<and>
        new' \<notin> set (map (fst \<circ> snd \<circ> snd) ps) \<and>
        (case tables db tbl' of None \<Rightarrow> False | Some cs \<Rightarrow> col' \<in> set cs \<and> ''deleted_at'' \<in> set cs)) ps"
  by (auto simp: swaps_pre_def list_all_iff)

lemma exec_swap_pair:
  assumes "old \<notin> dom (tables db)" and "tbl \<notin> dom (indexes db)"
    and "tables db tbl = Some cs" and "col \<in> set cs" and "''deleted_at'' \<in> set cs"
  shows "exec_stmts (swap_stmts ((old, new, tbl, col) # ps)) db =
         exec_stmts (swap_stmts ps) (swap_step (old, new, tbl, col) db)"
  using assms
  by (simp add: swap_step_def Let_def exec_drop_def drop_check_def exec_create_def
      missing_col_def partial_index_def domIff split: sum.splits)


lemma swap_step_tables [simp]: "tables (swap_step p db) = tables db"
  by (cases p) (simp add: swap_step_def Let_def)

lemma swap_step_settings [simp]: "settings (swap_step p db) = settings db"
  by (cases p) (simp add: swap_step_def Let_def)

lemma swap_step_update [simp]: "(swap_step p db)\<lparr>indexes := X\<rparr> = db\<lparr>indexes := X\<rparr>"
  by (cases p) (simp add: swap_step_def Let_def)

lemma swap_step_indexes_other:
  "n \<noteq> old \<Longrightarrow> n \<noteq> new \<Longrightarrow> indexes (swap_step (old, new, tbl, col) db) n = indexes db n"
  by (simp add: swap_step_def Let_def)

lemma find_swap_None:
  "n \<notin> set (map fst ps) \<Longrightarrow> n \<notin> set (map (fst \<circ> snd) ps) \<Longrightarrow>
   find (\<lambda>(old, new, _, _). n = old \<or> n = new) ps = None"
  by (force simp: find_None_iff)

lemma swap_indexes_step:
  assumes "old \<notin> set (map fst ps)" and "new \<notin> set (map (fst \<circ> snd) ps)" and "old \<noteq> new"
    and "old \<notin> set (map (fst \<circ> snd) ps)" and "new \<notin> set (map fst ps)"
  shows "swap_indexes ps (swap_step (old, new, tbl, col) db) = swap_indexes ((old, new, tbl, col) # ps) db"
proof
  fix n
  show "swap_indexes ps (swap_step (old, new, tbl, col) db) n = swap_indexes ((old, new, tbl, col) # ps) db n"
  proof (cases "n = old \<or> n = new")
    case True
    then have "find (\<lambda>(old, new, _, _). n = old \<or> n = new) ps = None"
      using assms by (auto intro: find_swap_None)
    with True assms(3) show ?thesis
      by (auto simp: swap_indexes_def swap_step_def Let_def rel_exists_def)
  next
    case False
    then show ?thesis
      by (auto simp: swap_indexes_def rel_exists_def swap_step_indexes_other domIff
          split: option.splits prod.splits)
  qed
qed


lemma swaps_pre_elem:
  assumes "swaps_pre ps db" and "(old, new, tbl, col) \<in> set ps"
  shows "tables db old = None \<and> indexes db tbl = None \<and> new \<notin> set (map (fst \<circ> snd \<circ> snd) ps) \<and>
         (case tables db tbl of None \<Rightarrow> False | Some cs \<Rightarrow> col \<in> set cs \<and> ''deleted_at'' \<in> set cs)"
proof -
  from assms(1) have "list_all (\<lambda>(old, new, tbl, col).
        old \<notin> dom (tables db) \<and> tbl \<notin> dom (indexes db) \<and> new \<notin> set (map (fst \<circ> snd \<circ> snd) ps) \<and>
        (case tables db tbl of None \<Rightarrow> False | Some cs \<Rightarrow> col \<in> set cs \<and> ''deleted_at'' \<in> set cs)) ps"
    by (simp add: swaps_pre_def)
  then have "case (old, new, tbl, col) of (old, new, tbl, col) \<Rightarrow>
        old \<notin> dom (tables db) \<and> tbl \<notin> dom (indexes db) \<and> new \<notin> set (map (fst \<circ> snd \<circ> snd) ps) \<and>
        (case tables db tbl of None \<Rightarrow> False | Some cs \<Rightarrow> col \<in> set cs \<and> ''deleted_at'' \<in> set cs)"
    using assms(2) by (simp only: list_all_iff)
  then show ?thesis by (simp add: domIff)
qed


lemma swaps_pre_intro:
  assumes "distinct (map fst ps @ map (fst \<circ> snd) ps)"
    and "\<And>old new tbl col. (old, new, tbl, col) \<in> set ps \<Longrightarrow>
      tables db old = None \<and> indexes db tbl = None \<and> new \<notin> set (map (fst \<circ> snd \<circ> snd) ps) \<and>
      (case tables db tbl of None \<Rightarrow> False | Some cs \<Rightarrow> col \<in> set cs \<and> ''deleted_at'' \<in> set cs)"
  shows "swaps_pre ps db"
  unfolding swaps_pre_def list_all_iff
proof (intro conjI ballI)
  show "distinct (map fst ps @ map (fst \<circ> snd) ps)" by (fact assms(1))
next
  fix q assume q: "q \<in> set ps"
  obtain a b c d where qd: "q = (a, b, c, d)" by (cases q) auto
  from q qd assms(2) [of a b c d] show "case q of (old, new, tbl, col) \<Rightarrow>
       old \<notin> dom (tables db) \<and> tbl \<notin> dom (indexes db) \<and> new \<notin> set (map (fst \<circ> snd \<circ> snd) ps) \<and>
       (case tables db tbl of None \<Rightarrow> False | Some cs \<Rightarrow> col \<in> set cs \<and> ''deleted_at'' \<in> set cs)"
    by (simp add: domIff)
qed

lemma swaps_pre_step:
  assumes pre: "swaps_pre ((old, new, tbl, col) # ps) db"
  shows "swaps_pre ps (swap_step (old, new, tbl, col) db)"
proof (rule swaps_pre_intro)
  show "distinct (map fst ps @ map (fst \<circ> snd) ps)"
    using pre by (simp add: swaps_pre_def)
next
  fix old' new' tbl' col' assume q: "(old', new', tbl', col') \<in> set ps"
  from swaps_pre_elem [OF pre, of old new tbl col]
  have hd: "tables db old = None" "new \<notin> set (map (fst \<circ> snd \<circ> snd) ps)"
    by simp_all
  from swaps_pre_elem [OF pre, of old' new' tbl' col'] q have h: "tables db old' = None" "indexes db tbl' = None"
    "new' \<notin> set (map (fst \<circ> snd \<circ> snd) ps)"
    "case tables db tbl' of None \<Rightarrow> False | Some cs \<Rightarrow> col' \<in> set cs \<and> ''deleted_at'' \<in> set cs"
    by auto
  from q hd(2) have "tbl' \<noteq> new" by force
  moreover from h(4) hd(1) have "tbl' \<noteq> old" by (auto split: option.splits)
  ultimately have "indexes (swap_step (old, new, tbl, col) db) tbl' = None"
    using h(2) by (simp add: swap_step_indexes_other)
  with h show "tables (swap_step (old, new, tbl, col) db) old' = None \<and>
      indexes (swap_step (old, new, tbl, col) db) tbl' = None \<and>
      new' \<notin> set (map (fst \<circ> snd \<circ> snd) ps) \<and>
      (case tables (swap_step (old, new, tbl, col) db) tbl' of None \<Rightarrow> False
       | Some cs \<Rightarrow> col' \<in> set cs \<and> ''deleted_at'' \<in> set cs)"
    by simp
qed


lemma exec_swap_stmts:
  "swaps_pre ps db \<Longrightarrow> exec_stmts (swap_stmts ps) db = Inr (db\<lparr>indexes := swap_indexes ps db\<rparr>)"
proof (induction ps arbitrary: db)
  case Nil
  then show ?case by (simp add: swap_indexes_def)
next
  case (Cons p ps)
  obtain old new tbl col where p: "p = (old, new, tbl, col)" by (cases p) auto
  from swaps_pre_elem [OF Cons.prems [unfolded p], of old new tbl col]
  obtain cs where "tables db old = None" "indexes db tbl = None"
    "tables db tbl = Some cs" "col \<in> set cs" "''deleted_at'' \<in> set cs"
    by (auto split: option.splits)
  then have "exec_stmts (swap_stmts (p # ps)) db = exec_stmts (swap_stmts ps) (swap_step p db)"
    unfolding p by (intro exec_swap_pair) (simp_all add: domIff)
  also have "\<dots> = Inr ((swap_step p db)\<lparr>indexes := swap_indexes ps (swap_step p db)\<rparr>)"
    using Cons.IH swaps_pre_step Cons.prems p by blast
  also have "swap_indexes ps (swap_step p db) = swap_indexes (p # ps) db"
    using Cons.prems unfolding p by (intro swap_indexes_step) (auto simp: swaps_pre_def)
  finally show ?case by simp
qed


lemma swaps_pre_settings [simp]: "swaps_pre ps (db\<lparr>settings := s\<rparr>) = swaps_pre ps db"
  by (simp add: swaps_pre_def)

lemma rel_exists_settings [simp]: "rel_exists (db\<lparr>settings := s\<rparr>) = rel_exists db"
  by (simp add: rel_exists_def fun_eq_iff)

lemma swap_indexes_settings [simp]: "swap_indexes ps (db\<lparr>settings := s\<rparr>) = swap_indexes ps db"
  by (simp add: swap_indexes_def fun_eq_iff split: option.split)

lemma swaps_pre_upd [simp]: "swaps_pre ps (db\<lparr>settings := s, indexes := i\<rparr>) = swaps_pre ps (db\<lparr>indexes := i\<rparr>)"
  by (simp add: swaps_pre_def)

lemma swap_indexes_upd [simp]:
  "swap_indexes ps (db\<lparr>settings := s, indexes := i\<rparr>) = swap_indexes ps (db\<lparr>indexes := i\<rparr>)"
  by (simp add: swap_indexes_def rel_exists_def fun_eq_iff split: option.split)

lemma swap_indexes_idem:
  "swap_indexes ps (db\<lparr>indexes := swap_indexes ps db\<rparr>) = swap_indexes ps db"
proof
  fix n
  show "swap_indexes ps (db\<lparr>indexes := swap_indexes ps db\<rparr>) n = swap_indexes ps db n"
    by (auto simp: swap_indexes_def rel_exists_def domIff split: option.splits prod.splits if_splits)
qed

lemma swaps_pre_tbl:
  assumes pre: "swaps_pre ps db" and q: "(old, new, tbl, col) \<in> set ps"
  shows "tbl \<notin> set (map fst ps) \<and> tbl \<notin> set (map (fst \<circ> snd) ps)"
proof
  from swaps_pre_elem [OF pre q] have h: "tables db tbl \<noteq> None" "tbl \<in> set (map (fst \<circ> snd \<circ> snd) ps)"
    using q by (auto split: option.splits) force
  show "tbl \<notin> set (map fst ps)"
  proof
    assume "tbl \<in> set (map fst ps)"
    then obtain n' t' c' where "(tbl, n', t', c') \<in> set ps" by auto
    from swaps_pre_elem [OF pre this] h(1) show False by simp
  qed
  show "tbl \<notin> set (map (fst \<circ> snd) ps)"
  proof
    assume "tbl \<in> set (map (fst \<circ> snd) ps)"
    then obtain o' t' c' where "(o', tbl, t', c') \<in> set ps" by auto
    from swaps_pre_elem [OF pre this] h(2) show False by simp
  qed
qed

lemma swaps_pre_contract:
  assumes pre: "swaps_pre ps db"
  shows "swaps_pre ps (db\<lparr>indexes := swap_indexes ps db\<rparr>)"
proof (rule swaps_pre_intro)
  show "distinct (map fst ps @ map (fst \<circ> snd) ps)"
    using pre by (simp add: swaps_pre_def)
next
  fix old new tbl col assume q: "(old, new, tbl, col) \<in> set ps"
  from swaps_pre_elem [OF pre q] have h: "tables db old = None" "indexes db tbl = None"
    "new \<notin> set (map (fst \<circ> snd \<circ> snd) ps)"
    "case tables db tbl of None \<Rightarrow> False | Some cs \<Rightarrow> col \<in> set cs \<and> ''deleted_at'' \<in> set cs"
    by auto
  from swaps_pre_tbl [OF pre q] have "find (\<lambda>(old, new, _, _). tbl = old \<or> tbl = new) ps = None"
    by (intro find_swap_None) auto
  with h show "tables (db\<lparr>indexes := swap_indexes ps db\<rparr>) old = None \<and>
      indexes (db\<lparr>indexes := swap_indexes ps db\<rparr>) tbl = None \<and>
      new \<notin> set (map (fst \<circ> snd \<circ> snd) ps) \<and>
      (case tables (db\<lparr>indexes := swap_indexes ps db\<rparr>) tbl of None \<Rightarrow> False
       | Some cs \<Rightarrow> col \<in> set cs \<and> ''deleted_at'' \<in> set cs)"
    by (simp add: swap_indexes_def)
qed

section \<open>A schema to run the migration on\<close>

text \<open>
  The two tables as Medusa's entities define them (the columns the statements use among
  them) with the four legacy indexes in place, and the planner setting at its default.
\<close>

definition legacy_index :: "ident \<Rightarrow> ident \<Rightarrow> index_def" where
  "legacy_index tbl col = \<lparr>ix_table = tbl, ix_cols = [col], ix_unique = False, ix_pred = None\<rparr>"

definition medusa_schema :: schema where
  "medusa_schema =
     \<lparr>tables = [''money_amount'' \<mapsto> [''id'', ''currency_code'', ''amount'', ''variant_id'', ''region_id'',
                                     ''price_list_id'', ''created_at'', ''updated_at'', ''deleted_at''],
               ''product_option_value'' \<mapsto> [''id'', ''value'', ''option_id'', ''variant_id'',
                                     ''created_at'', ''updated_at'', ''deleted_at'', ''metadata'']],
      indexes = [''IDX_17a06d728e4cfbc5bd2ddb70af'' \<mapsto> legacy_index ''money_amount'' ''variant_id'',
                 ''IDX_b433e27b7a83e6d12ab26b15b0'' \<mapsto> legacy_index ''money_amount'' ''region_id'',
                 ''IDX_7234ed737ff4eb1b6ae6e6d7b0'' \<mapsto> legacy_index ''product_option_value'' ''variant_id'',
                 ''IDX_cdf4388f294b30a25c627d69fe'' \<mapsto> legacy_index ''product_option_value'' ''option_id''],
      settings = [''enable_nestloop'' \<mapsto> ''on'']\<rparr>"

lemma up_pre_medusa_schema: "up_pre medusa_schema"
  by (simp add: up_pre_def swaps_pre_def index_swaps_def medusa_schema_def)

section \<open>Properties of the two methods\<close>

lemma parse_up_statements:
  "parse_query up_statements_sql = Inr (SetVar SessionScope ''enable_nestloop'' ''off'' # swap_stmts index_swaps)"
  unfolding up_statements_sql_def up_lines index_swaps_def by code_simp

lemma run_up_statements:
  assumes pre: "swaps_pre index_swaps db" and s: "''enable_nestloop'' \<in> dom (settings db)"
  shows "run_query up_statements_sql db = Inr (up_contract db)"
proof -
  let ?db1 = "db\<lparr>settings := (settings db)(''enable_nestloop'' \<mapsto> ''off'')\<rparr>"
  have "run_query up_statements_sql db = exec_stmts (swap_stmts index_swaps) ?db1"
    using s by (simp add: run_query_def parse_up_statements exec_set_def)
  also have "\<dots> = Inr (?db1\<lparr>indexes := swap_indexes index_swaps ?db1\<rparr>)"
    using pre by (simp add: exec_swap_stmts)
  finally show ?thesis by (simp add: up_contract_def)
qed

lemma up_pre_contract: "up_pre db \<Longrightarrow> up_pre (up_contract db)"
  by (simp add: up_pre_def up_contract_def swaps_pre_contract)

lemma up_contract_idem: "up_contract (up_contract db) = up_contract db"
  by (simp add: up_contract_def swap_indexes_idem)

text \<open>
  C1. The method \<open>up\<close> always fails: its template literal starts with two lines that
  begin with \<^verbatim>\<open>//\<close>, which is no comment in SQL; PostgreSQL reads it as an operator,
  no statement begins with an operator, and since the whole string is parsed before
  anything runs, not one of its statements is executed, whatever the schema.
\<close>

theorem up_fails_at_comment: "up db = Inl (SyntaxError (TOp ''//''))"
  by (simp add: up_def run_query_def parse_up_sql)

text \<open>
  C2. The method \<open>down\<close> always fails: its first statement \<^verbatim>\<open>DROP IF EXISTS name\<close> has no
  object kind after \<^verbatim>\<open>DROP\<close>, a syntax error at \<^verbatim>\<open>IF\<close>, so none of its statements
  runs: neither the drops of the new indexes nor the re-creation of the legacy ones.
\<close>

theorem down_fails_at_if: "down db = Inl (SyntaxError (TIdent ''if''))"
  by (simp add: down_def run_query_def parse_down_sql)

text \<open>
  C3. Refinement: on a schema where the two tables have the indexed columns and
  \<open>deleted_at\<close> (whether or not the legacy indexes exist), the statements of \<open>up\<close>
  succeed and produce exactly \<open>up_contract\<close>: the planner setting off, every legacy index
  gone, every partial index present unless its name was already taken, nothing else changed.
\<close>

theorem up_statements_refine_contract:
  assumes "up_pre db"
  shows "run_query up_statements_sql db = Inr (up_contract db)"
  using assms by (simp add: up_pre_def run_up_statements)

theorem up_statements_refine_contract_witness:
  "up_pre medusa_schema \<and>
   run_query up_statements_sql medusa_schema = Inr (up_contract medusa_schema)"
  using up_statements_refine_contract [OF up_pre_medusa_schema] up_pre_medusa_schema by simp

text \<open>
  C4. Idempotence: running the statements of \<open>up\<close> again on the schema they produced
  succeeds and changes nothing, since every drop and create is guarded.
\<close>

theorem up_statements_idempotent:
  assumes "up_pre db"
  shows "run_query up_statements_sql (up_contract db) = Inr (up_contract db)"
proof -
  from assms have "up_pre (up_contract db)" by (rule up_pre_contract)
  then have "run_query up_statements_sql (up_contract db) = Inr (up_contract (up_contract db))"
    by (simp add: up_pre_def run_up_statements)
  then show ?thesis by (simp add: up_contract_idem)
qed

theorem up_statements_idempotent_witness:
  "up_pre medusa_schema \<and>
   run_query up_statements_sql (up_contract medusa_schema) = Inr (up_contract medusa_schema)"
  using up_statements_idempotent [OF up_pre_medusa_schema] up_pre_medusa_schema by simp

end
