(* ===== verification/Migration_Down.thy ===== *)
theory Migration_Down
  imports Migration
begin

text \<open>
  Lines 31 to 35 of the method \<open>down\<close>, the four guarded \<^verbatim>\<open>CREATE INDEX\<close> statements
  of the plain legacy indexes. The method never sends them on their own: its literal
  starts with the drops of lines 26 to 29, which lack the keyword \<^verbatim>\<open>INDEX\<close>, and the whole
  query is rejected before any statement runs (\<open>Migration.down_fails_at_if\<close>). This
  theory states what the creates promise, \<open>restore_indexes\<close>, and proves that they keep
  it, as \<open>Migration.up_statements_refine_contract\<close> does for the statements of \<open>up\<close>.
\<close>

section \<open>The statements of \<open>down\<close>\<close>

definition index_restores :: "(ident \<times> ident \<times> ident) list" where
  "index_restores =
     [(''IDX_17a06d728e4cfbc5bd2ddb70af'', ''money_amount'', ''variant_id''),
      (''IDX_b433e27b7a83e6d12ab26b15b0'', ''money_amount'', ''region_id''),
      (''IDX_7234ed737ff4eb1b6ae6e6d7b0'', ''product_option_value'', ''variant_id''),
      (''IDX_cdf4388f294b30a25c627d69fe'', ''product_option_value'', ''option_id'')]"

definition restore_stmts :: "(ident \<times> ident \<times> ident) list \<Rightarrow> stmt list" where
  "restore_stmts rs = map (\<lambda>(n, tbl, col). CreateIndex False True n tbl [col] None) rs"

text \<open>
  The contract of lines 31 to 34: every legacy name that is free gets its plain
  single-column index back; a name already taken keeps what it has.
\<close>

definition restore_indexes :: "(ident \<times> ident \<times> ident) list \<Rightarrow> schema \<Rightarrow> ident \<Rightarrow> index_def option" where
  "restore_indexes rs db n =
     (case map_of rs n of
        None \<Rightarrow> indexes db n
      | Some (tbl, col) \<Rightarrow> (if rel_exists db n then indexes db n else Some (legacy_index tbl col)))"

definition restores_pre :: "(ident \<times> ident \<times> ident) list \<Rightarrow> schema \<Rightarrow> bool" where
  "restores_pre rs db \<longleftrightarrow>
     distinct (map fst rs) \<and>
     list_all (\<lambda>(n, tbl, col). tbl \<notin> dom (indexes db) \<and> tbl \<notin> set (map fst rs) \<and>
        (case tables db tbl of None \<Rightarrow> False | Some cs \<Rightarrow> col \<in> set cs)) rs"

lemma parse_down_creates: "parse_query down_creates_sql = Inr (restore_stmts index_restores)"
  unfolding down_creates_sql_def down_lines index_restores_def restore_stmts_def by code_simp

section \<open>The guarded creates\<close>

lemma exec_restore_one:
  assumes "tbl \<notin> dom (indexes db)" and "tables db tbl = Some cs" and "col \<in> set cs"
  shows "exec_stmt (CreateIndex False True n tbl [col] None) db =
         Inr (db\<lparr>indexes := restore_indexes [(n, tbl, col)] db\<rparr>)"
  using assms
  by (auto simp: exec_create_def missing_col_def restore_indexes_def legacy_index_def fun_eq_iff
      rel_exists_def domIff)

lemma restore_indexes_Cons:
  assumes "n \<notin> set (map fst rs)"
  shows "restore_indexes rs (db\<lparr>indexes := restore_indexes [(n, tbl, col)] db\<rparr>) =
         restore_indexes ((n, tbl, col) # rs) db"
proof
  fix m
  show "restore_indexes rs (db\<lparr>indexes := restore_indexes [(n, tbl, col)] db\<rparr>) m =
        restore_indexes ((n, tbl, col) # rs) db m"
  proof (cases "m = n")
    case True
    with assms have "map_of rs m = None" by (simp add: map_of_eq_None_iff image_iff)
    with True show ?thesis by (simp add: restore_indexes_def)
  next
    case False
    then show ?thesis
      by (auto simp: restore_indexes_def rel_exists_def domIff split: option.splits)
  qed
qed

lemma restores_pre_elem:
  assumes "restores_pre rs db" and "(n, tbl, col) \<in> set rs"
  shows "tbl \<notin> dom (indexes db) \<and> tbl \<notin> set (map fst rs) \<and>
         (case tables db tbl of None \<Rightarrow> False | Some cs \<Rightarrow> col \<in> set cs)"
proof -
  from assms(1) have "\<forall>x\<in>set rs. case x of (n, tbl, col) \<Rightarrow> tbl \<notin> dom (indexes db) \<and>
        tbl \<notin> set (map fst rs) \<and> (case tables db tbl of None \<Rightarrow> False | Some cs \<Rightarrow> col \<in> set cs)"
    unfolding restores_pre_def list_all_iff by (rule conjunct2)
  from bspec [OF this assms(2)] show ?thesis by simp
qed

lemma restores_pre_intro:
  assumes "distinct (map fst rs)"
    and "\<And>n tbl col. (n, tbl, col) \<in> set rs \<Longrightarrow> tbl \<notin> dom (indexes db) \<and> tbl \<notin> set (map fst rs) \<and>
           (case tables db tbl of None \<Rightarrow> False | Some cs \<Rightarrow> col \<in> set cs)"
  shows "restores_pre rs db"
  unfolding restores_pre_def list_all_iff
proof (intro conjI ballI)
  show "distinct (map fst rs)" by (fact assms(1))
next
  fix x assume x: "x \<in> set rs"
  obtain n tbl col where xd: "x = (n, tbl, col)" by (cases x) auto
  from x xd assms(2) [of n tbl col] show "case x of (n, tbl, col) \<Rightarrow> tbl \<notin> dom (indexes db) \<and>
        tbl \<notin> set (map fst rs) \<and> (case tables db tbl of None \<Rightarrow> False | Some cs \<Rightarrow> col \<in> set cs)"
    by simp
qed

lemma restores_pre_step:
  assumes pre: "restores_pre ((n, tbl, col) # rs) db"
  shows "restores_pre rs (db\<lparr>indexes := restore_indexes [(n, tbl, col)] db\<rparr>)"
proof (rule restores_pre_intro)
  show "distinct (map fst rs)" using pre by (simp add: restores_pre_def)
next
  fix n' tbl' col' assume x: "(n', tbl', col') \<in> set rs"
  from restores_pre_elem [OF pre, of n' tbl' col'] x
  have h: "tbl' \<notin> dom (indexes db)" "tbl' \<noteq> n" "tbl' \<notin> set (map fst rs)"
    "case tables db tbl' of None \<Rightarrow> False | Some cs \<Rightarrow> col' \<in> set cs"
    by auto
  then show "tbl' \<notin> dom (indexes (db\<lparr>indexes := restore_indexes [(n, tbl, col)] db\<rparr>)) \<and>
        tbl' \<notin> set (map fst rs) \<and>
        (case tables (db\<lparr>indexes := restore_indexes [(n, tbl, col)] db\<rparr>) tbl' of None \<Rightarrow> False
         | Some cs \<Rightarrow> col' \<in> set cs)"
    by (simp add: restore_indexes_def domIff)
qed

lemma exec_restore_stmts:
  "restores_pre rs db \<Longrightarrow> exec_stmts (restore_stmts rs) db = Inr (db\<lparr>indexes := restore_indexes rs db\<rparr>)"
proof (induction rs arbitrary: db)
  case Nil
  then show ?case by (simp add: restore_stmts_def restore_indexes_def)
next
  case (Cons r rs)
  obtain n tbl col where r: "r = (n, tbl, col)" by (cases r) auto
  let ?db1 = "db\<lparr>indexes := restore_indexes [(n, tbl, col)] db\<rparr>"
  from Cons.prems obtain cs where h: "tbl \<notin> dom (indexes db)" "tables db tbl = Some cs" "col \<in> set cs"
    and d: "n \<notin> set (map fst rs)"
    by (auto simp: restores_pre_def r split: option.splits)
  have "exec_stmts (restore_stmts rs) ?db1 = Inr (?db1\<lparr>indexes := restore_indexes rs ?db1\<rparr>)"
    using Cons.prems unfolding r by (intro Cons.IH restores_pre_step)
  with exec_restore_one [OF h] d show ?case
    by (simp add: restore_stmts_def r restore_indexes_Cons)
qed

lemma restores_pre_after_up: "restores_pre index_restores (up_contract medusa_schema)"
  by (simp add: restores_pre_def index_restores_def up_contract_def medusa_schema_def
      swap_indexes_def index_swaps_def domIff)

section \<open>What the creates of \<open>down\<close> promise\<close>

text \<open>
  C10. Refinement: on a schema where the four legacy names are distinct, no table is named
  like an index, and each table has the column its index is on, lines 31 to 34 succeed and
  produce exactly \<open>restore_indexes\<close>: every free legacy name gets back its plain
  single-column index on the table and column the line names, a name already taken keeps
  what it has (\<^verbatim>\<open>IF NOT EXISTS\<close>), and nothing else changes. The method \<open>down\<close> never
  reaches them (C2).
\<close>

theorem down_creates_refine_contract:
  assumes "restores_pre index_restores db"
  shows "run_query down_creates_sql db = Inr (db\<lparr>indexes := restore_indexes index_restores db\<rparr>)"
  using assms by (simp add: run_query_def parse_down_creates exec_restore_stmts)

theorem down_creates_refine_contract_witness:
  "restores_pre index_restores (up_contract medusa_schema) \<and>
   run_query down_creates_sql (up_contract medusa_schema) =
     Inr ((up_contract medusa_schema)\<lparr>indexes := restore_indexes index_restores (up_contract medusa_schema)\<rparr>) \<and>
   restore_indexes index_restores (up_contract medusa_schema) ''IDX_b433e27b7a83e6d12ab26b15b0'' =
     Some (legacy_index ''money_amount'' ''region_id'')"
proof -
  have r: "restore_indexes index_restores (up_contract medusa_schema) ''IDX_b433e27b7a83e6d12ab26b15b0'' =
     Some (legacy_index ''money_amount'' ''region_id'')"
    by (simp add: restore_indexes_def index_restores_def up_contract_def medusa_schema_def
        swap_indexes_def index_swaps_def rel_exists_def domIff)
  from down_creates_refine_contract [OF restores_pre_after_up] restores_pre_after_up r
  show ?thesis by simp
qed

end
