(* ===== verification/Discovery.thy ===== *)
theory Discovery
  imports Prelude
begin

text \<open>
  How the runner gets a migration's identifier (TypeORM's \<^verbatim>\<open>MigrationExecutor\<close>, outside
  this repository): the class name's last 13 characters (\<^verbatim>\<open>substr(-13)\<close>) read by
  JavaScript's \<^verbatim>\<open>parseInt(_, 10)\<close>; a name that yields \<open>NaN\<close> or \<open>0\<close> is refused with
  the error "migration name is wrong". \<open>parseInt\<close> skips leading white space, takes one
  optional sign and the longest run of decimal digits, and is \<open>NaN\<close> when there is none.
  Thirteen digits stay below \<open>2^53\<close>, so the JavaScript number is the exact integer.
\<close>

section \<open>JavaScript's parseInt in base 10\<close>

definition js_space :: "char \<Rightarrow> bool" where
  "js_space c \<longleftrightarrow> c \<in> set [CHR 0x09, CHR 0x0A, CHR 0x0B, CHR 0x0C, CHR 0x0D, CHR 0x20, CHR 0xA0]"

definition is_dec_digit :: "char \<Rightarrow> bool" where
  "is_dec_digit c \<longleftrightarrow> 48 \<le> (of_char c :: nat) \<and> (of_char c :: nat) \<le> 57"

definition digits_val :: "string \<Rightarrow> nat" where
  "digits_val ds = foldl (\<lambda>a c. 10 * a + (of_char c - 48)) 0 ds"

definition js_parse_int10 :: "string \<Rightarrow> int option" where
  "js_parse_int10 s =
     (let t = dropWhile js_space s;
          u = (if take 1 t = ''-'' \<or> take 1 t = ''+'' then drop 1 t else t);
          z = takeWhile is_dec_digit u
      in if z = [] then None else Some ((if take 1 t = ''-'' then -1 else 1) * int (digits_val z)))"

text \<open>\<^verbatim>\<open>s.substr(-n)\<close>: the last \<open>n\<close> characters, or all of \<open>s\<close> when it is shorter.\<close>

definition js_substr_from_end :: "nat \<Rightarrow> string \<Rightarrow> string" where
  "js_substr_from_end n s = drop (length s - n) s"

datatype discovery_error = WrongMigrationName string

definition migration_timestamp :: "string \<Rightarrow> discovery_error + int" where
  "migration_timestamp name =
     (case js_parse_int10 (js_substr_from_end 13 name) of
        None \<Rightarrow> Inl (WrongMigrationName name)
      | Some t \<Rightarrow> (if t = 0 then Inl (WrongMigrationName name) else Inr t))"

text \<open>The decimal printer that the round trip inverts (\<^verbatim>\<open>Date.now().toString()\<close>).\<close>

fun dec_string :: "nat \<Rightarrow> string" where
  "dec_string n = (if n < 10 then [char_of (48 + n)] else dec_string (n div 10) @ [char_of (48 + n mod 10)])"

declare dec_string.simps [simp del]

section \<open>Digits\<close>

lemma digits_val_append: "digits_val (xs @ ys) = digits_val xs * 10 ^ length ys + digits_val ys"
proof (induction ys rule: rev_induct)
  case Nil
  then show ?case by (simp add: digits_val_def)
next
  case (snoc y ys)
  then show ?case by (simp add: digits_val_def algebra_simps)
qed

lemma of_char_digit: "d < 10 \<Longrightarrow> (of_char (char_of (48 + d) :: char) :: nat) = 48 + d"
  by (simp add: of_char_of)

lemma dec_string_digits: "c \<in> set (dec_string n) \<Longrightarrow> is_dec_digit c"
proof (induction n rule: dec_string.induct)
  case (1 n)
  then show ?case
    by (subst (asm) dec_string.simps) (auto simp: is_dec_digit_def of_char_digit split: if_splits)
qed

lemma digits_val_dec_string: "digits_val (dec_string n) = n"
proof (induction n rule: dec_string.induct)
  case (1 n)
  then show ?case
    by (subst dec_string.simps) (simp add: digits_val_append digits_val_def of_char_digit)
qed

lemma dec_string_nonempty: "dec_string n \<noteq> []"
  by (subst dec_string.simps) simp

lemma length_dec_string_le: "0 < k \<Longrightarrow> n < 10 ^ k \<Longrightarrow> length (dec_string n) \<le> k"
proof (induction n arbitrary: k rule: dec_string.induct)
  case (1 n)
  show ?case
  proof (cases "n < 10")
    case True
    with "1.prems" show ?thesis by (subst dec_string.simps) simp
  next
    case False
    with "1.prems" obtain k' where k: "k = Suc k'" by (cases k) auto
    with "1.prems" have lt: "n div 10 < 10 ^ k'" by simp
    from False have "0 < n div 10" by simp
    with lt have "0 < k'" by (cases k') auto
    with "1.IH" False k lt show ?thesis by (subst dec_string.simps) simp
  qed
qed

lemma length_dec_string_ge: "10 ^ k \<le> n \<Longrightarrow> k < length (dec_string n)"
proof (induction n arbitrary: k rule: dec_string.induct)
  case (1 n)
  show ?case
  proof (cases "n < 10")
    case True
    with "1.prems" have "(10::nat) ^ k < 10" by linarith
    then have "k = 0" by (cases k) auto
    then show ?thesis by (simp add: dec_string_nonempty)
  next
    case False
    show ?thesis
    proof (cases k)
      case 0
      then show ?thesis by (simp add: dec_string_nonempty)
    next
      case (Suc k')
      with "1.prems" have "\<not> n div 10 < 10 ^ k'" by (simp add: div_less_iff_less_mult mult.commute)
      then have "10 ^ k' \<le> n div 10" by simp
      with "1.IH" False Suc show ?thesis by (subst dec_string.simps) simp
    qed
  qed
qed

lemma digits_val_snoc: "digits_val (xs @ [c]) = 10 * digits_val xs + (of_char c - 48)"
  by (simp add: digits_val_def)

lemma digits_val_bound: "\<forall>c\<in>set z. is_dec_digit c \<Longrightarrow> digits_val z < 10 ^ length z"
proof (induction z rule: rev_induct)
  case Nil
  then show ?case by (simp add: digits_val_def)
next
  case (snoc c z)
  then have "digits_val z < 10 ^ length z" and "of_char c - 48 \<le> (9::nat)"
    by (auto simp: is_dec_digit_def)
  then show ?case by (simp add: digits_val_snoc)
qed

lemma dec_digit_not_space_sign:
  "is_dec_digit c \<Longrightarrow> \<not> js_space c \<and> c \<noteq> CHR ''-'' \<and> c \<noteq> CHR ''+''"
  by (auto simp: is_dec_digit_def js_space_def)

lemma js_parse_int10_digits:
  assumes "z \<noteq> []" and "\<forall>c\<in>set z. is_dec_digit c"
  shows "js_parse_int10 z = Some (int (digits_val z))"
proof -
  from assms(1) obtain c cs where z: "z = c # cs" by (cases z) auto
  with assms(2) have "\<not> js_space c" "c \<noteq> CHR ''-''" "c \<noteq> CHR ''+''"
    using dec_digit_not_space_sign by auto
  moreover from assms(2) z have tw: "takeWhile is_dec_digit cs = cs" by (simp add: takeWhile_eq_all_conv)
  ultimately show ?thesis using assms z by (simp add: js_parse_int10_def tw)
qed

lemma js_parse_int10_bound:
  assumes "js_parse_int10 s = Some t"
  shows "\<bar>t\<bar> < 10 ^ length s"
proof -
  let ?t = "dropWhile js_space s"
  let ?u = "if take 1 ?t = ''-'' \<or> take 1 ?t = ''+'' then drop 1 ?t else ?t"
  let ?z = "takeWhile is_dec_digit ?u"
  from assms have t: "\<bar>t\<bar> = int (digits_val ?z)"
    by (auto simp: js_parse_int10_def Let_def split: if_splits)
  have "digits_val ?z < 10 ^ length ?z"
    by (rule digits_val_bound) (auto dest: set_takeWhileD)
  moreover have "length ?z \<le> length s"
  proof -
    have "length ?z \<le> length ?u" by (rule length_takeWhile_le)
    also have "\<dots> \<le> length ?t" by auto
    also have "\<dots> \<le> length s" by simp
    finally show ?thesis .
  qed
  then have "(10::nat) ^ length ?z \<le> 10 ^ length s" by (rule power_increasing) simp
  ultimately have "digits_val ?z < 10 ^ length s" by linarith
  with t show ?thesis by (metis of_nat_less_iff of_nat_numeral of_nat_power)
qed

lemma migration_timestamp_digits:
  assumes "js_substr_from_end 13 name = z" and "z \<noteq> []" and "\<forall>c\<in>set z. is_dec_digit c"
    and "digits_val z \<noteq> 0"
  shows "migration_timestamp name = Inr (int (digits_val z))"
  using assms js_parse_int10_digits [OF assms(2,3)] by (simp add: migration_timestamp_def)

section \<open>The timestamp of a class name\<close>

text \<open>
  Round trip: a class name made of any prefix and a 13-digit timestamp, as
  \<^verbatim>\<open>typeorm migration:create\<close> writes it, is read back as that timestamp.
\<close>

lemma migration_timestamp_roundtrip:
  assumes "10 ^ 12 \<le> n" and "n < 10 ^ 13"
  shows "migration_timestamp (prefix @ dec_string n) = Inr (int n)"
proof -
  have "12 < length (dec_string n)" using assms(1) by (rule length_dec_string_ge)
  moreover have "length (dec_string n) \<le> 13" using assms(2) by (intro length_dec_string_le) simp_all
  ultimately have len: "length (dec_string n) = 13" by simp
  have sub: "js_substr_from_end 13 (prefix @ dec_string n) = dec_string n"
    by (simp add: js_substr_from_end_def len)
  have "js_parse_int10 (dec_string n) = Some (int n)"
    using js_parse_int10_digits [OF dec_string_nonempty] dec_string_digits digits_val_dec_string by simp
  moreover have "n \<noteq> 0" using assms(1) by (intro notI) simp
  ultimately show ?thesis by (simp add: migration_timestamp_def sub)
qed

text \<open>
  Bounds: an accepted identifier is a non-zero integer of magnitude below \<open>10^13\<close>,
  hence below \<open>2^53\<close>: the JavaScript number \<^verbatim>\<open>parseInt\<close> returns is exact, and
  identifiers compare as the integers they spell.
\<close>

lemma migration_timestamp_bound:
  assumes "migration_timestamp name = Inr t"
  shows "t \<noteq> 0 \<and> \<bar>t\<bar> < 10 ^ 13 \<and> \<bar>t\<bar> < 2 ^ 53"
proof -
  from assms obtain u where p: "js_parse_int10 (js_substr_from_end 13 name) = Some u"
    and tu: "t = u" and nz: "u \<noteq> 0"
    by (auto simp: migration_timestamp_def split: option.splits if_splits)
  from js_parse_int10_bound [OF p] have "\<bar>u\<bar> < 10 ^ length (js_substr_from_end 13 name)" .
  moreover have "length (js_substr_from_end 13 name) \<le> 13" by (simp add: js_substr_from_end_def)
  then have "(10::int) ^ length (js_substr_from_end 13 name) \<le> 10 ^ 13" by (rule power_increasing) simp
  ultimately have "\<bar>u\<bar> < 10 ^ 13" by linarith
  then show ?thesis using tu nz by simp
qed

end
