(* ===== verification/Spec2Isabelle.thy ===== *)
theory Spec2Isabelle
  imports Migration_Down Discovery
begin

text \<open>
  \<^bold>\<open>A verification library for Medusa's migration
  \<^verbatim>\<open>productSearchGinIndexes1679950645254\<close>.\<close>

  \<^bold>\<open>The program.\<close> The repository's code under verification is one TypeORM migration class,
  \<^verbatim>\<open>src/packages/medusa/src/migrations/1679950645254-product-domain-impoved-indexes.ts\<close>.
  Its method \<^verbatim>\<open>up\<close> sends one template literal to \<^verbatim>\<open>queryRunner.query\<close>. The literal
  holds two comment lines, a \<^verbatim>\<open>SET\<close> of the planner option \<^verbatim>\<open>enable_nestloop\<close>, and four
  pairs of \<^verbatim>\<open>DROP INDEX IF EXISTS\<close> (a legacy index) and \<^verbatim>\<open>CREATE INDEX IF NOT EXISTS\<close>
  (a partial index \<^verbatim>\<open>WHERE deleted_at is null\<close>). The method \<^verbatim>\<open>down\<close> sends a literal that
  drops the four new indexes and re-creates the four legacy ones. Three parts take part in
  running them, and the development models each one:
  \<^item> PostgreSQL receives each literal as one simple query. It scans and parses the whole string,
    then runs the statements in one implicit transaction. This part is outside the repository
    and is modelled from its documented behaviour, as the specification treats it (the
    statement executor of its section 6).
  \<^item> The migration runner applies pending migrations in timestamp order, keeps the ledger
    of applied ones, and reverts the newest. This part is TypeORM's, also outside the
    repository, and is modelled from sections 4 to 7 of the specification.
  \<^item> The migration itself is modelled from its source, line by line.

  \<^bold>\<open>Theories and correspondence.\<close>
  \<^item> \<open>Prelude\<close> holds the named collections \<open>sql_eval\<close> and \<open>schema_simps\<close>, the type names,
    and the lemmas on strictly sorted lists, their prefixes and restricted maps that the
    runner and the executor share.
  \<^item> \<open>Sql_Lexer\<close> models PostgreSQL's \<^verbatim>\<open>scan.l\<close>. \<open>next_token\<close> returns one token and
    the rest of the input. It covers white space, \<^verbatim>\<open>--\<close> and nested \<^verbatim>\<open>/* */\<close> comments,
    case folding and 63-byte truncation of identifiers, quoted identifiers and strings with
    doubled quotes, integers, the operator rules, and lexical errors as tokens.
  \<^item> \<open>Sql_Parser\<close> models the \<^verbatim>\<open>gram.y\<close> productions for \<^verbatim>\<open>SET\<close>,
    \<^verbatim>\<open>DROP INDEX\<close> and \<^verbatim>\<open>CREATE INDEX\<close>. \<open>scan_stmt\<close> collects one statement's tokens;
    \<open>parse_query\<close> parses every statement of the string before any runs.
    \<open>SyntaxError\<close> is produced only where PostgreSQL also rejects; \<open>Unsupported\<close> marks
    input beyond the modelled subset.
  \<^item> \<open>Sql_Exec\<close> holds the catalog state \<open>schema\<close> (tables, indexes in the relation namespace,
    session settings). \<open>exec_stmt\<close> follows the order of PostgreSQL's checks.
    \<open>run_query\<close> stands for \<^verbatim>\<open>queryRunner.query(sql)\<close>: an error leaves the caller's
    schema unchanged.
  \<^item> \<open>Runner\<close> holds migration units (identifier, name, \<open>up\<close>, \<open>down\<close> over any database
    type), the runner state (database and ledger), \<open>apply_unit\<close> and \<open>revert_unit\<close> with
    the ordering guards and the error \<open>OrderViolation\<close>, the step relation
    \<open>runner_step\<close> and the reachable states.
  \<^item> \<open>Migration\<close> translates the source. \<open>up_hint_comment\<close> and \<open>up_nestloop_comment\<close>
    are lines 6 and 7, \<open>up_set_nestloop\<close> is line 8, and \<open>up_drop_*\<close> and
    \<open>up_create_*\<close> are lines 10 to 20. \<open>up_statements_sql\<close> is lines 8 to 21, \<open>up_sql\<close>
    is the literal of lines 5 to 21, and \<open>up\<close> is lines 4 to 22. Likewise \<open>down_drop_*\<close>
    are lines 26 to 29, \<open>down_create_*\<close> are lines 31 to 34, \<open>down_sql\<close> is lines 25 to 35,
    and \<open>down\<close> is lines 24 to 36. The class is the unit
    \<open>productSearchGinIndexes1679950645254\<close>, lines 3 to 37. The theory also holds the
    contract of the statements of \<open>up\<close> (\<open>index_swaps\<close>, \<open>swap_indexes\<close>,
    \<open>up_contract\<close> with its precondition \<open>up_pre\<close>), and a concrete schema
    \<open>medusa_schema\<close> for witnesses.
  \<^item> \<open>Migration_Down\<close> holds lines 31 to 34 of \<open>down\<close> as data: \<open>index_restores\<close> and
    \<open>restore_stmts\<close>, whose parse is proved equal to the parse of \<open>down_creates_sql\<close>. Their
    contract is \<open>restore_indexes\<close>, with its precondition \<open>restores_pre\<close>. The drops of lines
    26 to 29 are modelled only as the text they are, since PostgreSQL rejects them.
  \<^item> \<open>Discovery\<close> models how TypeORM derives a migration's identifier from its class name
    (\<^verbatim>\<open>substr(-13)\<close> and \<^verbatim>\<open>parseInt(_, 10)\<close>: \<open>js_substr_from_end\<close>,
    \<open>js_parse_int10\<close>, \<open>migration_timestamp\<close>). It is modelled from the behaviour of that
    code, which is outside the repository.
  \<^item> \<open>Spec2Isabelle\<close> (this theory) holds the properties that span the runner, the identifier
    and the migration.
  \<^bold>\<open>What is proved.\<close> The claims C1 to C10 are marked in the theories; the library lemmas
  they rest on are these.
  \<^item> Scanner: every token but the end consumes input (this gives the termination of the
    statement loop). Every identifier is non-empty and at most 63 bytes. Quoted text and
    the doubling printer \<open>quote_body\<close> are inverse (\<open>scan_quoted_roundtrip\<close>).
  \<^item> Executor: the catalog invariant \<open>schema_wf\<close> is preserved by every statement and every
    query (\<open>run_query_preserves_wf\<close>). A \<^verbatim>\<open>DROP INDEX\<close> of distinct names equals one drop
    per name (\<open>exec_drop_sequential\<close>).
  \<^item> Runner: in every reachable state the ledger is a prefix of the identifiers of a strictly
    ordered history, by rule induction over \<open>reachable\<close>. A unit whose \<open>up\<close> always fails
    is never in the ledger. \<open>run_pending\<close> applies every pending unit when all succeed, and
    stops at the first unit that fails with its error. Every runner step moves the number of
    applied units by one (\<open>runner_step_counter\<close>).
  \<^item> Identifier: a prefix followed by a 13-digit timestamp is read back as that timestamp
    (\<open>migration_timestamp_roundtrip\<close>). An accepted identifier is below \<open>10^13\<close>, hence exact
    as a JavaScript number; the unit's identifier is the one read from its class name
    (\<open>migration_id_from_class_name\<close>).
  \<^bold>\<open>The claims.\<close>
  \<^item> C1, C2: \<open>up\<close> fails on every schema with a syntax error at \<^verbatim>\<open>//\<close>, and \<open>down\<close>
    fails on every schema with a syntax error at \<^verbatim>\<open>IF\<close>.
  \<^item> C3, C4: the statements of \<open>up\<close> below its comment lines (lines 8 to 21) refine
    \<open>up_contract\<close> and are idempotent. The code never sends them on their own (C1).
  \<^item> C5 to C8: the runner never records the migration, every later migration stays
    pending, and \<^verbatim>\<open>migrations run\<close> never succeeds: it reaches this migration and stops
    there with the syntax error.
  \<^item> C9: the runner refines a counter of applied migrations that never passes this
    migration's position.
  \<^item> C10: the creates of \<open>down\<close> (lines 31 to 34) refine \<open>restore_indexes\<close>. The code
    never reaches them (C2).
  \<^bold>\<open>Bounds and termination.\<close> There is no fuel. The scanner and the statement loop are
  \<^theory_text>\<open>function\<close>s whose termination measure is the length of the remaining input, proved from
  the consumption lemmas. All other recursion is structural; \<open>dec_string\<close> recurses on
  \<open>n div 10\<close>. The numeric bounds are PostgreSQL's identifier length (63 bytes) and the
  13 digits of an identifier (below \<open>2^53\<close>).
  \<^bold>\<open>Not modelled.\<close>
  \<^item> In the scanner: extended string forms (\<^verbatim>\<open>E''\<close>, dollar quoting and the like),
    parameters, and non-integer numbers.
  \<^item> In the parser: all other statements, which are classed as \<open>Unsupported\<close>.
  \<^item> In the executor: dependencies, privileges, locks, schemas, expression indexes, and the
    validation of setting values.
  \<^item> In the runner: TypeORM's own code (the specification's contract is modelled instead),
    the loading of migration files, the connection pool, the advisory lock, and the scope of
    the session setting across pooled connections. Logging and the CLI are pure I/O and are
    not modelled.
  \<^bold>\<open>What is left.\<close> The migration's code is modelled in full: every line of both
  literals, both methods and the class (lines 1 and 2, the import and the blank line, are
  the only ones without a definition). What remains lies outside the repository and would
  extend the models of its collaborators, not of this code: more of PostgreSQL's grammar,
  and TypeORM's file loading and transaction modes.
\<close>

section \<open>Histories to run the migration in\<close>

definition earlier_unit :: "(schema, sql_error) migration_unit" where
  "earlier_unit = \<lparr>mu_id = 1679950645253, mu_name = ''earlier1679950645253'', mu_up = Inr, mu_down = Inr\<rparr>"

definition later_unit :: "(schema, sql_error) migration_unit" where
  "later_unit = \<lparr>mu_id = 1680000000000, mu_name = ''later1680000000000'', mu_up = Inr, mu_down = Inr\<rparr>"

definition example_history :: "(schema, sql_error) migration_unit list" where
  "example_history = [earlier_unit, productSearchGinIndexes1679950645254, later_unit]"

definition after_earlier :: "schema runner_state" where
  "after_earlier = \<lparr>rs_db = medusa_schema, rs_ledger = [1679950645253]\<rparr>"

lemma example_history_ok: "hist_ok example_history"
  by (simp add: hist_ok_def unit_ids_def example_history_def earlier_unit_def later_unit_def
      productSearchGinIndexes1679950645254_def)

lemma reachable_after_earlier: "reachable example_history medusa_schema after_earlier"
proof (rule reachable.step [OF reachable.init])
  show "runner_step example_history (init_state medusa_schema) after_earlier"
    by (rule runner_step.apply_step [where i = 1679950645253])
      (simp add: apply_unit_def lookup_unit_def unit_ids_def example_history_def earlier_unit_def
        later_unit_def productSearchGinIndexes1679950645254_def init_state_def after_earlier_def)
qed

lemma unit_up_error: "mu_up productSearchGinIndexes1679950645254 db = Inl (SyntaxError (TOp ''//''))"
  by (simp add: productSearchGinIndexes1679950645254_def up_def run_query_def parse_up_sql)

lemma up_never_succeeds: "\<exists>e. mu_up productSearchGinIndexes1679950645254 db = Inl e"
  by (simp add: unit_up_error)

section \<open>The migration in the runner\<close>

text \<open>
  C5. The runner never records this migration as applied: in every state reachable from
  any database through applies and reverts of a well-ordered history that contains it,
  its timestamp is not in the ledger.
\<close>

theorem migration_never_applied:
  assumes "reachable hist db0 st" and "hist_ok hist"
    and "productSearchGinIndexes1679950645254 \<in> set hist"
  shows "mu_id productSearchGinIndexes1679950645254 \<notin> set (rs_ledger st)"
  using assms up_never_succeeds by (rule reachable_failing_unit_pending)

theorem migration_never_applied_witness:
  "reachable example_history medusa_schema after_earlier \<and> hist_ok example_history \<and>
   productSearchGinIndexes1679950645254 \<in> set example_history \<and>
   mu_id productSearchGinIndexes1679950645254 \<notin> set (rs_ledger after_earlier)"
proof -
  have "productSearchGinIndexes1679950645254 \<in> set example_history"
    by (simp add: example_history_def)
  with migration_never_applied [OF reachable_after_earlier example_history_ok]
  show ?thesis using reachable_after_earlier example_history_ok by simp
qed

text \<open>
  C6. Every migration after it stays pending: since the runner applies in timestamp order
  and this migration is never applied, no migration with a later timestamp ever enters
  the ledger.
\<close>

theorem later_migrations_stay_pending:
  assumes "reachable hist db0 st" and "hist_ok hist"
    and "productSearchGinIndexes1679950645254 \<in> set hist"
    and "m \<in> set hist" and "mu_id productSearchGinIndexes1679950645254 < mu_id m"
  shows "mu_id m \<notin> set (rs_ledger st)"
proof
  assume m: "mu_id m \<in> set (rs_ledger st)"
  have "ledger_prefix hist st" using assms(1,2) by (rule reachable_ledger_prefix)
  moreover have "mu_id productSearchGinIndexes1679950645254 \<in> set (unit_ids hist)"
    using assms(3) by (simp add: unit_ids_def)
  ultimately have "mu_id productSearchGinIndexes1679950645254 \<in> set (rs_ledger st)"
    using assms(2,5) m by (blast intro: ledger_prefix_below)
  moreover have "mu_id productSearchGinIndexes1679950645254 \<notin> set (rs_ledger st)"
    using assms(1-3) up_never_succeeds by (rule reachable_failing_unit_pending)
  ultimately show False by contradiction
qed

theorem later_migrations_stay_pending_witness:
  "reachable example_history medusa_schema after_earlier \<and> hist_ok example_history \<and>
   productSearchGinIndexes1679950645254 \<in> set example_history \<and> later_unit \<in> set example_history \<and>
   mu_id productSearchGinIndexes1679950645254 < mu_id later_unit \<and>
   mu_id later_unit \<notin> set (rs_ledger after_earlier)"
proof -
  have in1: "productSearchGinIndexes1679950645254 \<in> set example_history"
    and in2: "later_unit \<in> set example_history"
    by (simp_all add: example_history_def)
  have lt: "mu_id productSearchGinIndexes1679950645254 < mu_id later_unit"
    by (simp add: productSearchGinIndexes1679950645254_def later_unit_def)
  from later_migrations_stay_pending [OF reachable_after_earlier example_history_ok in1 in2 lt]
  show ?thesis using reachable_after_earlier example_history_ok in1 in2 lt by simp
qed

section \<open>Running the pending migrations\<close>

text \<open>
  C7. \<^verbatim>\<open>medusa migrations run\<close> never succeeds once this migration is in the history:
  from every reachable state, running the pending migrations ends in an error, because
  this migration is pending there and a successful run would have applied it.
\<close>

theorem run_pending_never_succeeds:
  assumes "reachable hist db0 st" and "hist_ok hist"
    and "productSearchGinIndexes1679950645254 \<in> set hist"
  shows "isl (run_pending hist st)"
proof (cases "run_pending hist st")
  case (Inl e)
  then show ?thesis by simp
next
  case (Inr st')
  have "mu_id productSearchGinIndexes1679950645254 \<notin> set (rs_ledger st)"
    using assms up_never_succeeds by (rule reachable_failing_unit_pending)
  with assms(3) have "mu_id productSearchGinIndexes1679950645254 \<in> set (pending_ids hist st)"
    by (simp add: pending_ids_def unit_ids_def)
  moreover have "rs_ledger st' = rs_ledger st @ pending_ids hist st"
    using Inr by (intro run_list_ledger) (simp add: run_pending_def)
  ultimately have applied: "mu_id productSearchGinIndexes1679950645254 \<in> set (rs_ledger st')" by simp
  have "run_list hist (pending_ids hist st) st = Inr st'" using Inr by (simp add: run_pending_def)
  then have "reachable hist db0 st'" using assms(1) by (rule run_list_reachable)
  then have "mu_id productSearchGinIndexes1679950645254 \<notin> set (rs_ledger st')"
    using assms(2,3) up_never_succeeds by (rule reachable_failing_unit_pending)
  with applied show ?thesis by contradiction
qed

theorem run_pending_never_succeeds_witness:
  "reachable example_history medusa_schema after_earlier \<and> hist_ok example_history \<and>
   productSearchGinIndexes1679950645254 \<in> set example_history \<and>
   isl (run_pending example_history after_earlier)"
proof -
  have in1: "productSearchGinIndexes1679950645254 \<in> set example_history"
    by (simp add: example_history_def)
  from run_pending_never_succeeds [OF reachable_after_earlier example_history_ok in1]
  show ?thesis using reachable_after_earlier example_history_ok in1 by simp
qed

text \<open>
  C8. \<^verbatim>\<open>medusa migrations run\<close> gets as far as this migration and stops there with
  its syntax error: from any reachable state, when every migration of the history with an
  earlier timestamp succeeds, the run applies those that are pending and then reports the
  statement failure of this one, the syntax error at \<^verbatim>\<open>//\<close>.
\<close>

theorem run_pending_stops_at_migration:
  assumes reach: "reachable hist db0 st" and ok: "hist_ok hist"
    and mem: "productSearchGinIndexes1679950645254 \<in> set hist"
    and earlier: "\<forall>m\<in>set hist. mu_id m < mu_id productSearchGinIndexes1679950645254 \<longrightarrow>
                    (\<forall>db. \<exists>db'. mu_up m db = Inr db')"
  shows "run_pending hist st = Inl (StatementFailed (SyntaxError (TOp ''//'')))"
proof -
  from mem obtain j where j: "j < length hist" and hj: "hist ! j = productSearchGinIndexes1679950645254"
    by (auto simp: in_set_conv_nth)
  have sorted: "sorted_wrt (<) (map mu_id hist)" using ok by (simp add: hist_ok_def unit_ids_def)
  have ups: "\<forall>i<j. \<forall>db. \<exists>db'. mu_up (hist ! i) db = Inr db'"
  proof (rule allI, rule impI)
    fix i assume i: "i < j"
    with j sorted have "mu_id (hist ! i) < mu_id (hist ! j)" by (simp add: sorted_wrt_iff_nth_less)
    with earlier i j hj show "\<forall>db. \<exists>db'. mu_up (hist ! i) db = Inr db'" by simp
  qed
  have "ledger_prefix hist st" using reach ok by (rule reachable_ledger_prefix)
  moreover have "mu_id productSearchGinIndexes1679950645254 \<notin> set (rs_ledger st)"
    using reach ok mem up_never_succeeds by (rule reachable_failing_unit_pending)
  then have "mu_id (hist ! j) \<notin> set (rs_ledger st)" by (simp add: hj)
  moreover have "\<forall>db. mu_up (hist ! j) db = Inl (SyntaxError (TOp ''//''))"
    by (simp add: hj unit_up_error)
  ultimately show ?thesis using ok j ups by (intro run_pending_stops_at) simp_all
qed

theorem run_pending_stops_at_migration_witness:
  "reachable example_history medusa_schema (init_state medusa_schema) \<and> hist_ok example_history \<and>
   productSearchGinIndexes1679950645254 \<in> set example_history \<and>
   run_pending example_history (init_state medusa_schema) = Inl (StatementFailed (SyntaxError (TOp ''//'')))"
proof -
  have r: "reachable example_history medusa_schema (init_state medusa_schema)" by (rule reachable.init)
  have in1: "productSearchGinIndexes1679950645254 \<in> set example_history"
    by (simp add: example_history_def)
  have e: "\<forall>m\<in>set example_history. mu_id m < mu_id productSearchGinIndexes1679950645254 \<longrightarrow>
      (\<forall>db. \<exists>db'. mu_up m db = Inr db')"
    by (simp add: example_history_def earlier_unit_def later_unit_def productSearchGinIndexes1679950645254_def)
  from run_pending_stops_at_migration [OF r example_history_ok in1 e] r example_history_ok in1
  show ?thesis by simp
qed

section \<open>The identifier of the migration\<close>

text \<open>
  The identifier the runner orders this migration by is the one TypeORM derives from
  its class name (line 3): the last 13 characters of
  \<^verbatim>\<open>productSearchGinIndexes1679950645254\<close> read by \<^verbatim>\<open>parseInt\<close>, which is the
  \<open>mu_id\<close> of the unit; it is below \<open>2^53\<close>, so the JavaScript number is exact. The
  file name's timestamp is the same number.
\<close>

theorem migration_id_from_class_name:
  "migration_timestamp (mu_name productSearchGinIndexes1679950645254) =
     Inr (int (mu_id productSearchGinIndexes1679950645254)) \<and>
   int (mu_id productSearchGinIndexes1679950645254) < 2 ^ 53"
proof -
  have "migration_timestamp ''productSearchGinIndexes1679950645254'' = Inr (int (digits_val ''1679950645254''))"
    by (rule migration_timestamp_digits) (simp_all add: js_substr_from_end_def is_dec_digit_def digits_val_def)
  then show ?thesis by (simp add: productSearchGinIndexes1679950645254_def digits_val_def)
qed

section \<open>The runner as a counter\<close>

text \<open>
  C9. Refinement: with this migration at position \<open>j\<close> of a well-ordered history, the
  runner refines a counter of applied migrations that never passes \<open>j\<close>. Every step from
  a reachable state is a step of the counter on \<open>{0..j}\<close> (up by one while below
  \<open>j\<close>, down by one while above 0), and the ledger is always the first identifiers of the
  history, as many as the counter says. So at most the \<open>j\<close> migrations before it are
  ever applied.
\<close>

theorem runner_refines_counter:
  assumes reach: "reachable hist db0 st" and ok: "hist_ok hist"
    and j: "j < length hist" and hj: "hist ! j = productSearchGinIndexes1679950645254"
    and step: "runner_step hist st st'"
  shows "counter_step j (length (rs_ledger st)) (length (rs_ledger st')) \<and>
         rs_ledger st' = take (length (rs_ledger st')) (unit_ids hist)"
proof -
  have mem: "productSearchGinIndexes1679950645254 \<in> set hist" using j hj by (metis nth_mem)
  have inv: "ledger_prefix hist st" using reach ok by (rule reachable_ledger_prefix)
  from runner_step_counter [OF ok inv step]
  have c: "counter_step (length hist) (length (rs_ledger st)) (length (rs_ledger st'))"
    and inv': "ledger_prefix hist st'" by auto
  have reach': "reachable hist db0 st'" using reach step by (rule reachable.step)
  have "mu_id productSearchGinIndexes1679950645254 \<notin> set (rs_ledger st')"
    using reach' ok mem up_never_succeeds by (rule reachable_failing_unit_pending)
  then have pj: "mu_id (hist ! j) \<notin> set (rs_ledger st')" unfolding hj .
  have "length (rs_ledger st') \<le> j" using inv' j pj by (rule ledger_prefix_pending_bound)
  with c inv' show ?thesis by (auto simp: counter_step_def ledger_prefix_def)
qed

theorem runner_refines_counter_witness:
  "reachable example_history medusa_schema after_earlier \<and> hist_ok example_history \<and>
   1 < length example_history \<and> example_history ! 1 = productSearchGinIndexes1679950645254 \<and>
   runner_step example_history after_earlier (init_state medusa_schema) \<and>
   counter_step 1 (length (rs_ledger after_earlier)) (length (rs_ledger (init_state medusa_schema))) \<and>
   rs_ledger (init_state medusa_schema) =
     take (length (rs_ledger (init_state medusa_schema))) (unit_ids example_history)"
proof -
  have l: "1 < length example_history" and h: "example_history ! 1 = productSearchGinIndexes1679950645254"
    by (simp_all add: example_history_def)
  have s: "runner_step example_history after_earlier (init_state medusa_schema)"
    by (rule runner_step.revert_step [where i = 1679950645253])
      (simp add: revert_unit_def lookup_unit_def example_history_def earlier_unit_def
        after_earlier_def init_state_def)
  from runner_refines_counter [OF reachable_after_earlier example_history_ok l h s]
  show ?thesis using reachable_after_earlier example_history_ok l h s by simp
qed

end
